theory Spec2Isabelle
  imports Main "HOL-Library.Word"
begin

section \<open>JavaScript strings\<close>

text \<open>
  A JavaScript string is a sequence of UTF-16 code units, and \<open>length\<close>, the regular
  expressions and \<open>===\<close> of the service all work on code units. Every Korean syllable
  used below lies in the basic plane, so it is one unit.
\<close>

type_synonym jchar = "16 word"
type_synonym jstring = "jchar list"

text \<open>
  The class \<open>\s\<close> of a regular expression and the characters removed by
  \<open>String.prototype.trim\<close> are the same set: WhiteSpace and LineTerminator of
  ECMAScript. U+3000 belongs to it, so the class written with U+3000 added is the same.
\<close>

definition is_space :: "jchar \<Rightarrow> bool" where
  "is_space c =
     (c = 0x09 \<or> c = 0x0A \<or> c = 0x0B \<or> c = 0x0C \<or> c = 0x0D \<or> c = 0x20 \<or> c = 0xA0 \<or>
      c = 0x1680 \<or> (0x2000 \<le> c \<and> c \<le> 0x200A) \<or> c = 0x2028 \<or> c = 0x2029 \<or>
      c = 0x202F \<or> c = 0x205F \<or> c = 0x3000 \<or> c = 0xFEFF)"

definition trim :: "jstring \<Rightarrow> jstring" where
  "trim s = rev (dropWhile is_space (rev (dropWhile is_space s)))"

text \<open>\<open>s.replace(/\s+/g, '')\<close>: every whitespace unit is deleted.\<close>

definition remove_spaces :: "jstring \<Rightarrow> jstring" where
  "remove_spaces s = filter (\<lambda>c. \<not> is_space c) s"

text \<open>\<open>s.includes(p)\<close>: \<open>p\<close> occurs in \<open>s\<close> as a contiguous block.\<close>

fun starts_with :: "jstring \<Rightarrow> jstring \<Rightarrow> bool" where
  "starts_with s [] = True"
| "starts_with [] (p # ps) = False"
| "starts_with (c # s) (p # ps) = (c = p \<and> starts_with s ps)"

fun includes_str :: "jstring \<Rightarrow> jstring \<Rightarrow> bool" where
  "includes_str [] p = (p = [])"
| "includes_str (c # s) p = (starts_with (c # s) p \<or> includes_str s p)"

section \<open>sanitizeText\<close>

definition middle_dot :: jchar where
  "middle_dot = 0x00B7"

text \<open>
  The first \<open>replace\<close> of the sanitizer, whose pattern is the two units U+C544 U+1162
  and whose replacement is the middle dot U+00B7:
  the scan goes left to right, and after a match it continues behind the match.
\<close>

fun replace_corrupt :: "jstring \<Rightarrow> jstring" where
  "replace_corrupt (a # b # s) =
     (if a = 0xC544 \<and> b = 0x1162 then middle_dot # replace_corrupt s
      else a # replace_corrupt (b # s))"
| "replace_corrupt s = s"

text \<open>The replacement of U+FF65, the halfwidth katakana middle dot, by U+00B7.\<close>

definition replace_halfwidth :: "jstring \<Rightarrow> jstring" where
  "replace_halfwidth s = map (\<lambda>c. if c = 0xFF65 then middle_dot else c) s"

text \<open>
  The argument is a field of a parsed JSON object, which may be absent
  (\<open>undefined\<close>, here \<open>None\<close>). \<open>!text\<close> holds for an absent and for an empty
  string. The source replaces U+FF65 twice, once written literally and once as an escape.
\<close>

definition sanitizeText :: "jstring option \<Rightarrow> jstring" where
  "sanitizeText text =
     (case text of
        None \<Rightarrow> []
      | Some t \<Rightarrow>
          if t = [] then []
          else replace_halfwidth (replace_halfwidth (replace_corrupt t)))"

text \<open>No occurrence of the corrupted pair U+C544 U+1162 in a string.\<close>

fun corrupt_free :: "jstring \<Rightarrow> bool" where
  "corrupt_free (a # b # s) = (\<not> (a = 0xC544 \<and> b = 0x1162) \<and> corrupt_free (b # s))"
| "corrupt_free s = True"

section \<open>parsePageRange\<close>

text \<open>
  \<open>rangeStr.split(/,|\s+/)\<close>: a comma or a maximal run of whitespace separates two
  parts; a part may be empty, and the empty string gives one empty part.
\<close>

function split_parts :: "jstring \<Rightarrow> jstring list" where
  "split_parts [] = [[]]"
| "split_parts (c # s) =
     (if c = 0x2C then [] # split_parts s
      else if is_space c then [] # split_parts (dropWhile is_space s)
      else (case split_parts s of
              [] \<Rightarrow> [[c]]
            | p # ps \<Rightarrow> (c # p) # ps))"
  by pat_completeness auto
termination
  by (relation "measure length") (auto simp: le_imp_less_Suc length_dropWhile_le)

text \<open>\<open>s.split(d)\<close> for a separator of one unit: the pieces between its occurrences.\<close>

fun split_char :: "jchar \<Rightarrow> jstring \<Rightarrow> jstring list" where
  "split_char d [] = [[]]"
| "split_char d (c # s) =
     (if c = d then [] # split_char d s
      else (case split_char d s of
              [] \<Rightarrow> [[c]]
            | p # ps \<Rightarrow> (c # p) # ps))"

text \<open>
  \<open>parseInt(str, 10)\<close>: leading whitespace is skipped, a sign is read, then the longest
  run of decimal digits; with no digit the result is \<open>NaN\<close>, here \<open>None\<close>. Numbers are
  unbounded integers: a page number or page count is far below \<open>2 ^ 53\<close>, where the
  doubles of the source are exact.
\<close>

definition is_digit :: "jchar \<Rightarrow> bool" where
  "is_digit c = (0x30 \<le> c \<and> c \<le> 0x39)"

definition digit_value :: "jchar \<Rightarrow> int" where
  "digit_value c = uint c - 48"

definition parseInt :: "jstring \<Rightarrow> int option" where
  "parseInt str =
     (let s = dropWhile is_space str;
          sign = (case s of [] \<Rightarrow> 1 | c # r \<Rightarrow> if c = 0x2D then - 1 else (1::int));
          body = (case s of [] \<Rightarrow> [] | c # r \<Rightarrow> if c = 0x2D \<or> c = 0x2B then r else s);
          digits = takeWhile is_digit body
      in if digits = [] then None
         else Some (sign * foldl (\<lambda>n d. 10 * n + digit_value d) 0 digits))"

text \<open>
  \<open>pages\<close> is a \<open>Set\<close>, which keeps its elements in insertion order without
  repetition: a list, to which \<open>add\<close> appends a new element only.
\<close>

definition set_add :: "int \<Rightarrow> int list \<Rightarrow> int list" where
  "set_add x pages = (if x \<in> set pages then pages else pages @ [x])"

text \<open>The body of the loop over the parts, with the set of pages as state.\<close>

definition page_part :: "int \<Rightarrow> int list \<Rightarrow> jstring \<Rightarrow> int list" where
  "page_part totalPages pages part =
     (let trimmed = trim part in
      if trimmed = [] then pages
      else if 0x2D \<in> set trimmed then
        (case split_char 0x2D trimmed of
           startStr # endStr # rest \<Rightarrow>
             (case (parseInt startStr, parseInt endStr) of
                (Some start, Some end) \<Rightarrow>
                  (let s = max 1 (min start end);
                       e = min totalPages (max start end)
                   in foldl (\<lambda>pages i. set_add (i - 1) pages) pages [s..e])
              | _ \<Rightarrow> pages)
         | _ \<Rightarrow> pages)
      else
        (case parseInt trimmed of
           Some page \<Rightarrow>
             if page \<ge> 1 \<and> page \<le> totalPages then set_add (page - 1) pages else pages
         | None \<Rightarrow> pages))"

definition parsePageRange :: "jstring \<Rightarrow> int \<Rightarrow> int list" where
  "parsePageRange rangeStr totalPages =
     sort (foldl (page_part totalPages) [] (split_parts rangeStr))"


section \<open>Chunking\<close>

text \<open>\<open>xs.slice(i, j)\<close> for indices that are not negative.\<close>

definition slice :: "nat \<Rightarrow> nat \<Rightarrow> 'a list \<Rightarrow> 'a list" where
  "slice i j xs = take (j - i) (drop i xs)"

text \<open>
  The loop \<open>for (let i = 0; i < requestedIndices.length; i += CHUNK_SIZE)\<close>, with the
  chunk size as a parameter. With a step of 0 the loop of the source never ends, so the
  result is an option and not returning is \<open>None\<close>.
\<close>

partial_function (option) chunk_loop ::
  "nat \<Rightarrow> 'a list \<Rightarrow> nat \<Rightarrow> 'a list list \<Rightarrow> 'a list list option" where
  "chunk_loop chunkSize requestedIndices i chunkedIndices =
     (if i < length requestedIndices
      then chunk_loop chunkSize requestedIndices (i + chunkSize)
             (chunkedIndices @ [slice i (i + chunkSize) requestedIndices])
      else Some chunkedIndices)"

definition CHUNK_SIZE :: nat where
  "CHUNK_SIZE = 3"

definition chunk_indices :: "nat \<Rightarrow> 'a list \<Rightarrow> 'a list list option" where
  "chunk_indices chunkSize requestedIndices = chunk_loop chunkSize requestedIndices 0 []"

text \<open>The invariant of the set of pages while the parts are read.\<close>

definition pages_ok :: "int \<Rightarrow> int list \<Rightarrow> bool" where
  "pages_ok totalPages pages = (distinct pages \<and> list_all (\<lambda>i. 0 \<le> i \<and> i < totalPages) pages)"

section \<open>Candidate records and plan items\<close>

text \<open>
  A candidate is an object parsed from the JSON answer of the extraction service.
  The response schema declares five string properties and requires none of them, so
  each field is a string or absent (\<open>undefined\<close>, here \<open>None\<close>). The field
  \<open>notes\<close> is written \<open>notes'\<close>, since the plain word is reserved.
\<close>

record candidate =
  unit :: "jstring option"
  standard :: "jstring option"
  element :: "jstring option"
  teachingMethod :: "jstring option"
  notes' :: "jstring option"

text \<open>The interface \<open>TeachingPlanItem\<close> of types.ts, in the order of its declaration.\<close>

record teachingPlanItem =
  tp_id :: jstring
  tp_unit :: jstring
  tp_standard :: jstring
  tp_element :: jstring
  tp_method :: "jstring list"
  tp_teachingMethod :: jstring
  tp_notes :: jstring
  tp_remarks :: jstring
  tp_period :: jstring
  tp_hours :: jstring

text \<open>A value that the code throws, or with which a promise is rejected.\<close>

datatype exn = Error string | TypeError string | Rejected string

text \<open>An ASCII literal as code units.\<close>

definition ascii :: "string \<Rightarrow> jstring" where
  "ascii s = map (\<lambda>c. of_nat (of_char c)) s"

text \<open>
  A number in a template literal, for a natural number: its decimal digits.
\<close>

fun decimal :: "nat \<Rightarrow> jstring" where
  "decimal n = (if n < 10 then [0x30 + of_nat n] else decimal (n div 10) @ [0x30 + of_nat (n mod 10)])"

declare decimal.simps [simp del]

section \<open>The filters of the consolidation loop\<close>

text \<open>
  \<open>stdText.replace(/^[-\<cdot>*]\s*/, '')\<close>: one leading hyphen, middle dot U+00B7 or asterisk
  is removed together with the whitespace behind it.
\<close>

definition strip_marker :: "jstring \<Rightarrow> jstring" where
  "strip_marker s =
     (case s of
        [] \<Rightarrow> []
      | c # r \<Rightarrow> if c = 0x2D \<or> c = 0xB7 \<or> c = 0x2A then dropWhile is_space r else s)"

text \<open>
  The bracketed code \<open>/\[[^\]]+\]/\<close>. \<open>code_after s\<close> matches the pattern behind an
  opening bracket: the longest run without a closing bracket must not be empty and must
  be followed by a closing bracket; the result is the text behind the match. A shorter
  run cannot match, since the unit behind it is not a closing bracket.
\<close>

definition code_after :: "jstring \<Rightarrow> jstring option" where
  "code_after s =
     (let inner = takeWhile (\<lambda>c. c \<noteq> 0x5D) s;
          rest = dropWhile (\<lambda>c. c \<noteq> 0x5D) s
      in if inner = [] \<or> rest = [] then None else Some (tl rest))"

text \<open>\<open>/\[[^\]]+\]/.test(s)\<close>, which is also \<open>!!s.match(/\[[^\]]+\]/)\<close>.\<close>

fun has_code :: "jstring \<Rightarrow> bool" where
  "has_code [] = False"
| "has_code (c # s) = ((c = 0x5B \<and> code_after s \<noteq> None) \<or> has_code s)"

text \<open>\<open>s.replace(/\[[^\]]+\]/g, '')\<close>: every match, from left to right, is deleted.\<close>

function remove_codes :: "jstring \<Rightarrow> jstring" where
  "remove_codes [] = []"
| "remove_codes (c # s) =
     (if c = 0x5B then
        (case code_after s of
           Some rest \<Rightarrow> remove_codes rest
         | None \<Rightarrow> c # remove_codes s)
      else c # remove_codes s)"
  by pat_completeness auto
termination
proof (relation "measure length"; (simp; fail)?)
  fix c :: jchar and s rest :: jstring
  assume "code_after s = Some rest"
  then have "dropWhile (\<lambda>c. c \<noteq> 0x5D) s \<noteq> []" and "rest = tl (dropWhile (\<lambda>c. c \<noteq> 0x5D) s)"
    by (auto simp: code_after_def Let_def split: if_splits)
  then have "length rest < length (dropWhile (\<lambda>c. c \<noteq> 0x5D) s)"
    by simp
  also have "\<dots> \<le> length s"
    by (rule length_dropWhile_le)
  finally show "(rest, c # s) \<in> measure length"
    by simp
qed

text \<open>A class of units followed by \<open>$\<close>: the last unit of the text is in the class.\<close>

definition ends_in :: "jchar list \<Rightarrow> jstring \<Rightarrow> bool" where
  "ends_in cls s = (s \<noteq> [] \<and> last s \<in> set cls)"

text \<open>
  The header words of the source, in its order; they read seongchwi-gijun,
  naeyong-chegye, yeongyeok, danwon-myeong, pyeongga-yoso, gyoyuk-gwajeong,
  haeksim-aidieo, danwon, gubun, sunseo, sigi, chasi.
\<close>

definition headers :: "jstring list" where
  "headers =
     [[0xC131, 0xCDE8, 0xAE30, 0xC900],
      [0xB0B4, 0xC6A9, 0xCCB4, 0xACC4],
      [0xC601, 0xC5ED],
      [0xB2E8, 0xC6D0, 0xBA85],
      [0xD3C9, 0xAC00, 0xC694, 0xC18C],
      [0xAD50, 0xC721, 0xACFC, 0xC815],
      [0xD575, 0xC2EC, 0xC544, 0xC774, 0xB514, 0xC5B4],
      [0xB2E8, 0xC6D0],
      [0xAD6C, 0xBD84],
      [0xC21C, 0xC11C],
      [0xC2DC, 0xAE30],
      [0xCC28, 0xC2DC]]"

text \<open>The phrase seongchwi-gijun-kodeu, "standard code".\<close>

definition code_phrase :: jstring where
  "code_phrase = [0xC131, 0xCDE8, 0xAE30, 0xC900, 0xCF54, 0xB4DC]"

text \<open>\<open>(item.standard || '').trim()\<close> followed by the removal of the leading marker.\<close>

definition stdText_of :: "candidate \<Rightarrow> jstring" where
  "stdText_of item =
     strip_marker (trim (case standard item of None \<Rightarrow> [] | Some s \<Rightarrow> s))"

definition bodyText_of :: "jstring \<Rightarrow> jstring" where
  "bodyText_of stdText = trim (remove_codes stdText)"

definition cleanBody_of :: "jstring \<Rightarrow> jstring" where
  "cleanBody_of bodyText = remove_spaces bodyText"

text \<open>The deduplication key that the loop computes for an item.\<close>

definition normalizedKey :: "candidate \<Rightarrow> jstring" where
  "normalizedKey item = cleanBody_of (bodyText_of (stdText_of item))"

text \<open>
  \<open>item.unit && item.unit.replace(/\s+/g, '') === cleanBody\<close>: an absent or empty
  unit is falsy.
\<close>

definition same_as_unit :: "candidate \<Rightarrow> jstring \<Rightarrow> bool" where
  "same_as_unit item cleanBody =
     (case unit item of
        None \<Rightarrow> False
      | Some u \<Rightarrow> u \<noteq> [] \<and> remove_spaces u = cleanBody)"

text \<open>
  The body of the loop up to the deduplication: \<open>None\<close> where the source says
  \<open>continue\<close>, otherwise \<open>cleanBody\<close> and \<open>hasCode\<close>. The units of the two ending
  classes are da, full stop, question mark, and im, eum, ham.
\<close>

definition screen_item :: "candidate \<Rightarrow> (jstring \<times> bool) option" where
  "screen_item item =
     (let stdText = stdText_of item in
      if stdText = [] \<or> length stdText < 10 then None
      else
        let hasCode = has_code stdText;
            bodyText = bodyText_of stdText;
            cleanBody = cleanBody_of bodyText
        in
        if list_ex (\<lambda>h. cleanBody = h \<or> includes_str cleanBody code_phrase) headers then None
        else
          let endsWithDa = ends_in [0xB2E4, 0x2E, 0x3F] bodyText;
              endsWithNoun = ends_in [0xC784, 0xC74C, 0xD568] bodyText
          in
          if \<not> hasCode \<and> \<not> endsWithDa \<and> \<not> endsWithNoun \<and> length cleanBody < 5 then None
          else if same_as_unit item cleanBody then None
          else Some (cleanBody, hasCode))"

section \<open>Deduplication\<close>

text \<open>
  The state of the loop: \<open>finalItems\<close> and \<open>bodyMap\<close>, which maps a key to an index
  of \<open>finalItems\<close>.
\<close>

type_synonym consolidation = "candidate list \<times> (jstring \<rightharpoonup> nat)"

text \<open>
  The argument of \<open>RegExp.prototype.test\<close> is converted to a string; an absent
  field reads "undefined".
\<close>

definition to_string :: "jstring option \<Rightarrow> jstring" where
  "to_string v = (case v of None \<Rightarrow> ascii ''undefined'' | Some s \<Rightarrow> s)"

text \<open>
  One round of the loop. Reading \<open>finalItems[index]\<close> beyond the end gives
  \<open>undefined\<close>, and the property access on it throws a TypeError.
\<close>

definition dedup_item :: "consolidation \<Rightarrow> candidate \<Rightarrow> exn + consolidation" where
  "dedup_item st item =
     (case st of (finalItems, bodyMap) \<Rightarrow>
        (case screen_item item of
           None \<Rightarrow> Inr st
         | Some (cleanBody, hasCode) \<Rightarrow>
             (case bodyMap cleanBody of
                Some index \<Rightarrow>
                  if index < length finalItems then
                    (let existingItem = finalItems ! index;
                         existingHasCode = has_code (to_string (standard existingItem))
                     in if \<not> existingHasCode \<and> hasCode
                        then Inr (finalItems[index := item], bodyMap)
                        else Inr st)
                  else Inl (TypeError ''Cannot read properties of undefined'')
              | None \<Rightarrow>
                  Inr (finalItems @ [item], bodyMap(cleanBody \<mapsto> length finalItems)))))"

fun dedup_loop :: "consolidation \<Rightarrow> candidate list \<Rightarrow> exn + consolidation" where
  "dedup_loop st [] = Inr st"
| "dedup_loop st (item # allItems) =
     (case dedup_item st item of
        Inl e \<Rightarrow> Inl e
      | Inr st' \<Rightarrow> dedup_loop st' allItems)"

text \<open>
  The final \<open>map\<close>. \<open>clock idx\<close> is what \<open>Date.now()\<close> returns while the record
  of index \<open>idx\<close> is built.
\<close>

definition to_plan_item :: "(nat \<Rightarrow> nat) \<Rightarrow> candidate \<Rightarrow> nat \<Rightarrow> teachingPlanItem" where
  "to_plan_item clock item idx =
     \<lparr> tp_id = ascii ''file-gen-'' @ decimal (clock idx) @ ascii ''-'' @ decimal idx,
       tp_unit = sanitizeText (unit item),
       tp_standard = sanitizeText (standard item),
       tp_element = sanitizeText (element item),
       tp_method = [],
       tp_teachingMethod = sanitizeText (teachingMethod item),
       tp_notes = sanitizeText (notes' item),
       tp_remarks = [],
       tp_period = [],
       tp_hours = [] \<rparr>"

text \<open>
  The kept items of the deduplication and filtering logic, before the final
  \<open>map\<close>, and the consolidation as a whole.
\<close>

definition kept_items :: "candidate list \<Rightarrow> exn + candidate list" where
  "kept_items allItems =
     (case dedup_loop ([], Map.empty) allItems of
        Inl e \<Rightarrow> Inl e
      | Inr (finalItems, bodyMap) \<Rightarrow> Inr finalItems)"

definition consolidate :: "(nat \<Rightarrow> nat) \<Rightarrow> candidate list \<Rightarrow> exn + teachingPlanItem list" where
  "consolidate clock allItems =
     (case kept_items allItems of
        Inl e \<Rightarrow> Inl e
      | Inr finalItems \<Rightarrow>
          Inr (map (\<lambda>(item, idx). to_plan_item clock item idx)
                 (zip finalItems [0..<length finalItems])))"

text \<open>A returned record read again as a candidate: the same five properties.\<close>

definition as_candidate :: "teachingPlanItem \<Rightarrow> candidate" where
  "as_candidate r =
     \<lparr> unit = Some (tp_unit r), standard = Some (tp_standard r),
       element = Some (tp_element r), teachingMethod = Some (tp_teachingMethod r),
       notes' = Some (tp_notes r) \<rparr>"

section \<open>Files, the PDF library and the extraction service\<close>

text \<open>
  What the browser gives for a \<open>File\<close>: its type, its name in lower case (the result
  of \<open>toLowerCase\<close>), and the outcome of each way of reading it, which is a value or a
  rejection.
\<close>

record File =
  file_type :: jstring
  file_name_lower :: jstring
  arrayBuffer :: "exn + 8 word list"
  readAsDataURL :: "exn + jstring"
  readAsText_utf8 :: "exn + jstring"
  readAsText_euckr :: "exn + jstring"

datatype GradeLevel = GRADE_1 | GRADE_2 | GRADE_3

text \<open>
  A part of a request to the extraction service. The prompt is a fixed template filled
  with the subject, the grade and the optional scope, and is kept as these three.
\<close>

datatype content =
    InlineData jstring "jstring option"
  | Text jstring
  | Prompt jstring GradeLevel "jstring option"

text \<open>
  The collaborators outside the repository: the key storage, pdf-lib on documents
  \<open>'d\<close> with pages \<open>'p\<close>, the generative service (called with the key of the client),
  \<open>JSON.parse\<close> on an answer, and the clock (\<open>date_now sv idx\<close> is the reading
  of \<open>Date.now()\<close> for the record of index \<open>idx\<close>).
\<close>

record ('d, 'p) services =
  stored_key :: "jstring option"
  env_API_KEY :: "jstring option"
  pdf_load :: "8 word list \<Rightarrow> exn + 'd"
  pdf_getPageCount :: "'d \<Rightarrow> int"
  pdf_create :: "exn + 'd"
  pdf_copyPages :: "'d \<Rightarrow> 'd \<Rightarrow> int list \<Rightarrow> exn + 'p list"
  pdf_addPage :: "'d \<Rightarrow> 'p \<Rightarrow> exn + 'd"
  pdf_saveAsBase64 :: "'d \<Rightarrow> exn + jstring"
  generateContent :: "jstring \<Rightarrow> content list \<Rightarrow> exn + jstring option"
  JSON_parse :: "jstring \<Rightarrow> exn + candidate list"
  date_now :: "nat \<Rightarrow> nat"

text \<open>Sequencing of steps that may throw, and \<open>try\<close> with \<open>catch\<close>.\<close>

definition and_then :: "exn + 'a \<Rightarrow> ('a \<Rightarrow> exn + 'b) \<Rightarrow> exn + 'b" where
  "and_then m f = (case m of Inl e \<Rightarrow> Inl e | Inr v \<Rightarrow> f v)"

definition try_catch :: "exn + 'a \<Rightarrow> (exn \<Rightarrow> exn + 'a) \<Rightarrow> exn + 'a" where
  "try_catch body handler = (case body of Inl e \<Rightarrow> handler e | Inr v \<Rightarrow> Inr v)"

text \<open>\<open>Promise.all\<close>: all results in order, or a rejection.\<close>

fun promise_all :: "(exn + 'a) list \<Rightarrow> exn + 'a list" where
  "promise_all [] = Inr []"
| "promise_all (p # ps) =
     (case p of
        Inl e \<Rightarrow> Inl e
      | Inr v \<Rightarrow> (case promise_all ps of Inl e \<Rightarrow> Inl e | Inr vs \<Rightarrow> Inr (v # vs)))"

definition getApiKey :: "('d, 'p) services \<Rightarrow> jstring" where
  "getApiKey sv =
     (case stored_key sv of
        Some storedKey \<Rightarrow>
          if storedKey \<noteq> [] then storedKey
          else (case env_API_KEY sv of None \<Rightarrow> [] | Some k \<Rightarrow> k)
      | None \<Rightarrow> (case env_API_KEY sv of None \<Rightarrow> [] | Some k \<Rightarrow> k))"

definition requireApiKey :: "('d, 'p) services \<Rightarrow> jstring option" where
  "requireApiKey sv = (let key = getApiKey sv in if key = [] then None else Some key)"

text \<open>\<open>result.split(',')[1]\<close>, which is \<open>undefined\<close> when there is no comma.\<close>

definition fileToBase64 :: "File \<Rightarrow> exn + jstring option" where
  "fileToBase64 f =
     and_then (readAsDataURL f)
       (\<lambda>result. case split_char 0x2C result of
                    a # base64 # rest \<Rightarrow> Inr (Some base64)
                  | _ \<Rightarrow> Inr None)"

definition readTextFile :: "File \<Rightarrow> exn + jstring" where
  "readTextFile f =
     and_then (readAsText_utf8 f)
       (\<lambda>text. if 0xFFFD \<in> set text then readAsText_euckr f else Inr text)"

definition ends_with :: "jstring \<Rightarrow> jstring \<Rightarrow> bool" where
  "ends_with s suffix = starts_with (rev s) (rev suffix)"

definition getMimeType :: "File \<Rightarrow> jstring" where
  "getMimeType f =
     (if file_type f \<noteq> [] then file_type f
      else
        let name = file_name_lower f in
        if ends_with name (ascii ''.pdf'') then ascii ''application/pdf''
        else if ends_with name (ascii ''.txt'') then ascii ''text/plain''
        else if ends_with name (ascii ''.jpg'') \<or> ends_with name (ascii ''.jpeg'')
          then ascii ''image/jpeg''
        else if ends_with name (ascii ''.png'') then ascii ''image/png''
        else ascii ''application/pdf'')"

section \<open>extractPdfPagesByIndices\<close>

fun add_pages :: "('d, 'p) services \<Rightarrow> 'd \<Rightarrow> 'p list \<Rightarrow> exn + 'd" where
  "add_pages sv newPdf [] = Inr newPdf"
| "add_pages sv newPdf (page # copiedPages) =
     and_then (pdf_addPage sv newPdf page) (\<lambda>newPdf'. add_pages sv newPdf' copiedPages)"

text \<open>The \<open>try\<close> block of the function.\<close>

definition slice_document ::
  "('d, 'p) services \<Rightarrow> File \<Rightarrow> int list \<Rightarrow> exn + jstring option" where
  "slice_document sv f pageIndices =
     (if length pageIndices = 0 then Inr None
      else
        and_then (arrayBuffer f) (\<lambda>buffer.
        and_then (pdf_load sv buffer) (\<lambda>pdfDoc.
        and_then (pdf_create sv) (\<lambda>newPdf.
        and_then (pdf_copyPages sv newPdf pdfDoc pageIndices) (\<lambda>copiedPages.
        and_then (add_pages sv newPdf copiedPages) (\<lambda>newPdf'.
        and_then (pdf_saveAsBase64 sv newPdf') (\<lambda>savedBase64.
        Inr (Some savedBase64))))))))"

text \<open>The \<open>catch\<close> block logs the error and returns \<open>null\<close>.\<close>

definition extractPdfPagesByIndices ::
  "('d, 'p) services \<Rightarrow> File \<Rightarrow> int list \<Rightarrow> exn + jstring option" where
  "extractPdfPagesByIndices sv f pageIndices =
     try_catch (slice_document sv f pageIndices) (\<lambda>error. Inr None)"

section \<open>analyzeChunk and parseStandardsAndGeneratePlan\<close>

text \<open>
  The client \<open>ai\<close> is given by its key. An absent or empty \<open>response.text\<close> gives
  the empty list; the \<open>catch\<close> block warns and returns the empty list. The chunk index
  is used in the warning only.
\<close>

definition analyzeChunk ::
  "('d, 'p) services \<Rightarrow> jstring \<Rightarrow> content list \<Rightarrow> jstring \<Rightarrow> GradeLevel \<Rightarrow>
   jstring option \<Rightarrow> nat option \<Rightarrow> exn + candidate list" where
  "analyzeChunk sv ai chunkContent subject grade range' chunkIndex =
     try_catch
       (and_then (generateContent sv ai (chunkContent @ [Prompt subject grade range']))
          (\<lambda>text. case text of
                     None \<Rightarrow> Inr []
                   | Some t \<Rightarrow> if t = [] then Inr [] else JSON_parse sv t))
       (\<lambda>e. Inr [])"

text \<open>The callback of \<open>chunkedIndices.map\<close>: one chunk, sliced and analysed.\<close>

definition chunk_task ::
  "('d, 'p) services \<Rightarrow> File \<Rightarrow> jstring \<Rightarrow> jstring \<Rightarrow> GradeLevel \<Rightarrow> jstring option \<Rightarrow>
   int list \<Rightarrow> nat \<Rightarrow> exn + candidate list" where
  "chunk_task sv f ai subject grade range' indices i =
     and_then (extractPdfPagesByIndices sv f indices)
       (\<lambda>slicedBase64. case slicedBase64 of
                          None \<Rightarrow> Inr []
                        | Some b \<Rightarrow>
                            if b = [] then Inr []
                            else analyzeChunk sv ai
                                   [InlineData (ascii ''application/pdf'') (Some b)]
                                   subject grade range' (Some i))"

text \<open>
  How the part before the consolidation ends: by the \<open>return []\<close> inside the
  \<open>try\<close> block, or with the gathered \<open>allItems\<close>.
\<close>

datatype gathered = Return "teachingPlanItem list" | Continue "candidate list"

text \<open>
  The \<open>try\<close> block of the chunking logic. The result is an option because of the
  chunking loop, which is written for any chunk size.
\<close>

definition chunked_items ::
  "('d, 'p) services \<Rightarrow> File \<Rightarrow> jstring \<Rightarrow> jstring \<Rightarrow> GradeLevel \<Rightarrow> jstring option \<Rightarrow>
   jstring \<Rightarrow> (exn + gathered) option" where
  "chunked_items sv f ai subject grade range' pageRange =
     (case arrayBuffer f of
        Inl e \<Rightarrow> Some (Inl e)
      | Inr buffer \<Rightarrow>
          (case pdf_load sv buffer of
             Inl e \<Rightarrow> Some (Inl e)
           | Inr pdfDoc \<Rightarrow>
               let totalPages = pdf_getPageCount sv pdfDoc;
                   requestedIndices = parsePageRange pageRange totalPages
               in
               if length requestedIndices = 0 then Some (Inr (Return []))
               else
                 (case chunk_indices CHUNK_SIZE requestedIndices of
                    None \<Rightarrow> None
                  | Some chunkedIndices \<Rightarrow>
                      Some (and_then
                              (promise_all
                                 (map (\<lambda>(indices, i). chunk_task sv f ai subject grade range' indices i)
                                    (zip chunkedIndices [0..<length chunkedIndices])))
                              (\<lambda>results. Inr (Continue (concat results)))))))"

text \<open>The single call on the whole file, in the \<open>catch\<close> block and in the \<open>else\<close> branch.\<close>

definition fallback_items ::
  "('d, 'p) services \<Rightarrow> File \<Rightarrow> jstring \<Rightarrow> jstring \<Rightarrow> jstring \<Rightarrow> GradeLevel \<Rightarrow>
   jstring option \<Rightarrow> exn + gathered" where
  "fallback_items sv f ai mimeType subject grade range' =
     and_then (fileToBase64 f) (\<lambda>base64Data.
     and_then (analyzeChunk sv ai [InlineData mimeType base64Data] subject grade range' None)
       (\<lambda>allItems. Inr (Continue allItems)))"

definition single_call_items ::
  "('d, 'p) services \<Rightarrow> File \<Rightarrow> jstring \<Rightarrow> jstring \<Rightarrow> jstring \<Rightarrow> GradeLevel \<Rightarrow>
   jstring option \<Rightarrow> exn + gathered" where
  "single_call_items sv f ai mimeType subject grade range' =
     and_then
       (if mimeType = ascii ''text/plain''
        then and_then (readTextFile f) (\<lambda>textContent. Inr [Text textContent])
        else and_then (fileToBase64 f) (\<lambda>base64Data. Inr [InlineData mimeType base64Data]))
       (\<lambda>contents.
          and_then (analyzeChunk sv ai contents subject grade range' None)
            (\<lambda>allItems. Inr (Continue allItems)))"

text \<open>
  The exported function. \<open>None\<close> means that it does not return; \<open>Some (Inl e)\<close>
  that its promise is rejected with \<open>e\<close>; \<open>Some (Inr items)\<close> that it resolves.
\<close>

definition parseStandardsAndGeneratePlan ::
  "('d, 'p) services \<Rightarrow> File \<Rightarrow> jstring \<Rightarrow> GradeLevel \<Rightarrow> jstring option \<Rightarrow>
   jstring option \<Rightarrow> (exn + teachingPlanItem list) option" where
  "parseStandardsAndGeneratePlan sv f subject grade range' pageRange =
     (case requireApiKey sv of
        None \<Rightarrow> Some (Inl (Error ''API Key missing''))
      | Some apiKey \<Rightarrow>
          let mimeType = getMimeType f;
              gathered =
                (case pageRange of
                   Some pr \<Rightarrow>
                     if mimeType = ascii ''application/pdf'' \<and> pr \<noteq> [] \<and> trim pr \<noteq> [] then
                       (case chunked_items sv f apiKey subject grade range' pr of
                          None \<Rightarrow> None
                        | Some (Inl e) \<Rightarrow>
                            Some (fallback_items sv f apiKey mimeType subject grade range')
                        | Some (Inr g) \<Rightarrow> Some (Inr g))
                     else Some (single_call_items sv f apiKey mimeType subject grade range')
                 | None \<Rightarrow> Some (single_call_items sv f apiKey mimeType subject grade range'))
          in
          (case gathered of
             None \<Rightarrow> None
           | Some (Inl e) \<Rightarrow> Some (Inl e)
           | Some (Inr (Return items)) \<Rightarrow> Some (Inr items)
           | Some (Inr (Continue allItems)) \<Rightarrow> Some (consolidate (date_now sv) allItems)))"

section \<open>Invariants and example inputs\<close>

text \<open>
  The invariant of the deduplication loop: every kept item passes the filters and
  \<open>bodyMap\<close> maps its key to its index, and every entry of \<open>bodyMap\<close> is the
  index of a kept item with that key.
\<close>

definition dedup_inv :: "consolidation \<Rightarrow> bool" where
  "dedup_inv st =
     (case st of (finalItems, bodyMap) \<Rightarrow>
        (\<forall>i < length finalItems.
            screen_item (finalItems ! i) \<noteq> None \<and>
            bodyMap (normalizedKey (finalItems ! i)) = Some i) \<and>
        (\<forall>k i. bodyMap k = Some i \<longrightarrow>
            i < length finalItems \<and> normalizedKey (finalItems ! i) = k))"

text \<open>Whether the sanitizer leaves the two fields read by the filters as they are.\<close>

definition clean_fields :: "candidate \<Rightarrow> bool" where
  "clean_fields item =
     (sanitizeText (standard item) = (case standard item of None \<Rightarrow> [] | Some s \<Rightarrow> s) \<and>
      sanitizeText (unit item) = (case unit item of None \<Rightarrow> [] | Some u \<Rightarrow> u))"

text \<open>A candidate with a standard text and no other field.\<close>

definition plain_candidate :: "jstring \<Rightarrow> candidate" where
  "plain_candidate s =
     \<lparr> unit = None, standard = Some s, element = None, teachingMethod = None,
       notes' = None \<rparr>"

text \<open>
  The example of the prompt, "[9su01-01] jisu-beopchig-eul ihaehanda.", a coded
  standard of 21 units.
\<close>

definition ex_coded_standard :: jstring where
  "ex_coded_standard =
     [0x5B, 0x39, 0xC218, 0x30, 0x31, 0x2D, 0x30, 0x31, 0x5D, 0x20,
      0xC9C0, 0xC218, 0xBC95, 0xCE59, 0xC744, 0x20, 0xC774, 0xD574, 0xD55C, 0xB2E4, 0x2E]"

text \<open>The same sentence without its code, 11 units.\<close>

definition ex_uncoded_standard :: jstring where
  "ex_uncoded_standard =
     [0xC9C0, 0xC218, 0xBC95, 0xCE59, 0xC744, 0x20, 0xC774, 0xD574, 0xD55C, 0xB2E4, 0x2E]"

text \<open>The noun phrase of the prompt, "ilcha-bangjeongsig-ui puri", 9 units.\<close>

definition ex_noun_standard :: jstring where
  "ex_noun_standard = [0xC77C, 0xCC28, 0xBC29, 0xC815, 0xC2DD, 0xC758, 0x20, 0xD480, 0xC774]"

text \<open>"[9su01-01] ihaehanda.": 15 units, of which 5 remain without the code.\<close>

definition ex_short_body_standard :: jstring where
  "ex_short_body_standard =
     [0x5B, 0x39, 0xC218, 0x30, 0x31, 0x2D, 0x30, 0x31, 0x5D, 0x20,
      0xC774, 0xD574, 0xD55C, 0xB2E4, 0x2E]"

text \<open>
  "ga", the corrupted pair, "na ihaehanda.": 10 units, which the sanitizer turns
  into 9.
\<close>

definition ex_corrupt_standard :: jstring where
  "ex_corrupt_standard =
     [0xAC00, 0xC544, 0x1162, 0xB098, 0x20, 0xC774, 0xD574, 0xD55C, 0xB2E4, 0x2E]"

text \<open>A clock that stands still.\<close>

definition ex_clock :: "nat \<Rightarrow> nat" where
  "ex_clock idx = 1700000000000"

text \<open>
  An extraction call fails when the request is rejected or its answer is no JSON:
  the cases in which the \<open>try\<close> block of \<open>analyzeChunk\<close> throws.
\<close>

definition extraction_fails :: "('d, 'p) services \<Rightarrow> jstring \<Rightarrow> content list \<Rightarrow> bool" where
  "extraction_fails sv ai contents =
     (case generateContent sv ai contents of
        Inl e \<Rightarrow> True
      | Inr None \<Rightarrow> False
      | Inr (Some t) \<Rightarrow>
          t \<noteq> [] \<and> (case JSON_parse sv t of Inl e \<Rightarrow> True | Inr items \<Rightarrow> False))"

text \<open>
  Example collaborators: a document is its number of pages, a page is its index, a
  key is stored, and every call of the generative service is rejected.
\<close>

definition ex_services :: "(nat, nat) services" where
  "ex_services =
     \<lparr> stored_key = Some (ascii ''k''),
       env_API_KEY = None,
       pdf_load = (\<lambda>buffer. Inr 4),
       pdf_getPageCount = (\<lambda>pdfDoc. int pdfDoc),
       pdf_create = Inr 0,
       pdf_copyPages = (\<lambda>newPdf pdfDoc pageIndices. Inr (map nat pageIndices)),
       pdf_addPage = (\<lambda>newPdf page. Inr (Suc newPdf)),
       pdf_saveAsBase64 = (\<lambda>newPdf. Inr (ascii ''JVBERi0='')),
       generateContent = (\<lambda>ai contents. Inl (Rejected ''quota exceeded'')),
       JSON_parse = (\<lambda>text. Inl (Error ''Unexpected token'')),
       date_now = ex_clock \<rparr>"

text \<open>The same collaborators with a PDF library that cannot open the document.\<close>

definition ex_services_unreadable :: "(nat, nat) services" where
  "ex_services_unreadable =
     ex_services \<lparr> pdf_load := (\<lambda>buffer. Inl (Error ''Failed to parse PDF document'')) \<rparr>"

definition ex_pdf_file :: File where
  "ex_pdf_file =
     \<lparr> file_type = ascii ''application/pdf'',
       file_name_lower = ascii ''plan.pdf'',
       arrayBuffer = Inr [0x25, 0x50, 0x44, 0x46],
       readAsDataURL = Inr (ascii ''data:application/pdf;base64,JVBERi0=''),
       readAsText_utf8 = Inr (ascii ''%PDF''),
       readAsText_euckr = Inr (ascii ''%PDF'') \<rparr>"

section \<open>Properties of the sanitizer\<close>

lemma replace_corrupt_fixed: "corrupt_free s \<Longrightarrow> replace_corrupt s = s"
  by (induction s rule: replace_corrupt.induct) auto

lemma replace_corrupt_head:
  "replace_corrupt s = c # r \<Longrightarrow> c = middle_dot \<or> (\<exists>t. s = c # t)"
  by (induction s rule: replace_corrupt.induct) (auto split: if_splits)

lemma corrupt_free_replace_corrupt: "corrupt_free (replace_corrupt s)"
proof (induction s rule: replace_corrupt.induct)
  case (1 a b s)
  show ?case
  proof (cases "a = 0xC544 \<and> b = 0x1162")
    case True
    with 1 show ?thesis
      by (cases "replace_corrupt s") (auto simp: middle_dot_def)
  next
    case False
    show ?thesis
    proof (cases "replace_corrupt (b # s)")
      case Nil
      with False show ?thesis by auto
    next
      case (Cons c r)
      from replace_corrupt_head[OF Cons] have "c = middle_dot \<or> c = b" by auto
      moreover have "corrupt_free (c # r)" using 1(2)[OF False] Cons by simp
      ultimately show ?thesis using False Cons
        by (auto simp: middle_dot_def)
    qed
  qed
qed simp_all

lemma corrupt_free_replace_halfwidth:
  "corrupt_free s \<Longrightarrow> corrupt_free (replace_halfwidth s)"
  by (induction s rule: corrupt_free.induct) (auto simp: replace_halfwidth_def middle_dot_def)

lemma replace_halfwidth_idem: "replace_halfwidth (replace_halfwidth s) = replace_halfwidth s"
  by (induction s) (auto simp: replace_halfwidth_def middle_dot_def)

lemma replace_halfwidth_Nil_iff: "replace_halfwidth s = [] \<longleftrightarrow> s = []"
  by (simp add: replace_halfwidth_def)

lemma sanitizeText_Some_idem: "sanitizeText (Some (sanitizeText x)) = sanitizeText x"
proof (cases x)
  case None
  then show ?thesis by (simp add: sanitizeText_def)
next
  case (Some t)
  let ?u = "replace_halfwidth (replace_halfwidth (replace_corrupt t))"
  have free: "corrupt_free ?u"
    by (intro corrupt_free_replace_halfwidth corrupt_free_replace_corrupt)
  have "replace_halfwidth (replace_halfwidth (replace_corrupt ?u)) = ?u"
    by (subst replace_corrupt_fixed[OF free]) (simp add: replace_halfwidth_idem)
  with Some show ?thesis by (simp add: sanitizeText_def)
qed

text \<open>
  Claim C8. The sanitizer is idempotent: sanitizing a sanitized string (or the empty
  string produced for an absent field) gives that string again.
\<close>

theorem C8_sanitize_idempotent:
  "sanitizeText (Some (sanitizeText (Some x))) = sanitizeText (Some x)"
  by (rule sanitizeText_Some_idem)

theorem C8_sanitize_idempotent_witness:
  "sanitizeText (Some (sanitizeText (Some [0xAC00, 0xC544, 0x1162, 0xFF65, 0xB098])))
     = [0xAC00, 0x00B7, 0x00B7, 0xB098]"
  using C8_sanitize_idempotent [of "[0xAC00, 0xC544, 0x1162, 0xFF65, 0xB098]"]
  by (simp add: sanitizeText_def replace_halfwidth_def middle_dot_def)

section \<open>Properties of parsePageRange\<close>

lemma pages_ok_set_add:
  "pages_ok n pages \<Longrightarrow> 0 \<le> x \<Longrightarrow> x < n \<Longrightarrow> pages_ok n (set_add x pages)"
  by (auto simp: pages_ok_def set_add_def)

lemma pages_ok_range:
  "pages_ok n pages \<Longrightarrow> list_all (\<lambda>i. 1 \<le> i \<and> i \<le> n) js \<Longrightarrow>
   pages_ok n (foldl (\<lambda>pages i. set_add (i - 1) pages) pages js)"
  by (induction js arbitrary: pages) (simp_all add: pages_ok_set_add)

lemma pages_ok_page_part: "pages_ok n pages \<Longrightarrow> pages_ok n (page_part n pages part)"
proof -
  assume ok: "pages_ok n pages"
  have range: "pages_ok n (foldl (\<lambda>pages i. set_add (i - 1) pages) pages
                 [max 1 (min a b)..min n (max a b)])" for a b
    by (rule pages_ok_range[OF ok]) (auto simp: list_all_iff)
  show ?thesis
    using ok range
    by (auto simp: page_part_def Let_def intro: pages_ok_set_add
             split: list.splits option.splits)
qed

lemma pages_ok_parts: "pages_ok n pages \<Longrightarrow> pages_ok n (foldl (page_part n) pages parts)"
  by (induction parts arbitrary: pages) (auto intro: pages_ok_page_part)

text \<open>
  Claim C5. For every range expression and every page count, \<open>parsePageRange\<close> returns
  only indices from 0 up to the page count (excluded), none of them twice, in
  ascending order.
\<close>

theorem C5_parsePageRange_bounded_sorted:
  "list_all (\<lambda>i. 0 \<le> i \<and> i < totalPages) (parsePageRange rangeStr totalPages) \<and>
   distinct (parsePageRange rangeStr totalPages) \<and>
   sorted (parsePageRange rangeStr totalPages)"
proof -
  have "pages_ok totalPages (foldl (page_part totalPages) [] (split_parts rangeStr))"
    by (rule pages_ok_parts) (simp add: pages_ok_def)
  then show ?thesis
    by (simp add: parsePageRange_def pages_ok_def list_all_iff)
qed

theorem C5_parsePageRange_bounded_sorted_witness:
  "parsePageRange [0x31, 0x2C, 0x20, 0x33, 0x2D, 0x35] 10 = [0, 2, 3, 4] \<and>
   list_all (\<lambda>i. 0 \<le> i \<and> i < 10) [0, 2, 3, 4 :: int] \<and>
   distinct [0, 2, 3, 4 :: int] \<and> sorted [0, 2, 3, 4 :: int]"
  using C5_parsePageRange_bounded_sorted [of 10 "[0x31, 0x2C, 0x20, 0x33, 0x2D, 0x35]"]
  by (simp add: parsePageRange_def page_part_def parseInt_def trim_def is_space_def
        is_digit_def digit_value_def set_add_def upto.simps)

section \<open>Properties of the chunking loop\<close>

lemma chunk_loop_returns:
  assumes "0 < k"
  shows "\<exists>cs. chunk_loop k xs i acc = Some (acc @ cs) \<and>
           concat cs = drop i xs \<and>
           list_all (\<lambda>c. c \<noteq> [] \<and> length c \<le> k) cs \<and>
           list_all (\<lambda>c. length c = k) (butlast cs)"
proof (induction "length xs - i" arbitrary: i acc rule: less_induct)
  case less
  show ?case
  proof (cases "i < length xs")
    case False
    then show ?thesis
      by (subst chunk_loop.simps) simp
  next
    case True
    let ?c = "slice i (i + k) xs"
    have "length xs - (i + k) < length xs - i" using True assms by arith
    from less[OF this, of "acc @ [?c]"]
    obtain cs where cs: "chunk_loop k xs (i + k) (acc @ [?c]) = Some ((acc @ [?c]) @ cs)"
      "concat cs = drop (i + k) xs"
      "list_all (\<lambda>c. c \<noteq> [] \<and> length c \<le> k) cs"
      "list_all (\<lambda>c. length c = k) (butlast cs)"
      by blast
    have c_ne: "?c \<noteq> []" and c_len: "length ?c \<le> k"
      using True assms by (auto simp: slice_def)
    have c_full: "cs \<noteq> [] \<Longrightarrow> length ?c = k"
    proof -
      assume "cs \<noteq> []"
      then obtain d ds where "cs = d # ds" by (cases cs) auto
      with cs(3) have "concat cs \<noteq> []" by auto
      with cs(2) have "i + k < length xs" by simp
      then show ?thesis by (simp add: slice_def)
    qed
    have "take k (drop i xs) @ drop k (drop i xs) = drop i xs"
      by (rule append_take_drop_id)
    then have "take k (drop i xs) @ drop (i + k) xs = drop i xs"
      by (simp add: add.commute)
    with cs(2) have cat: "concat (?c # cs) = drop i xs"
      by (simp add: slice_def)
    have "chunk_loop k xs i acc = Some (acc @ (?c # cs))"
      using True cs(1) by (subst chunk_loop.simps) simp
    moreover have "list_all (\<lambda>c. length c = k) (butlast (?c # cs))"
      using cs(4) c_full by simp
    ultimately show ?thesis
      using cat cs(3) c_ne c_len by (intro exI[of _ "?c # cs"]) simp
  qed
qed

text \<open>
  Claim C7. For every sequence of page indices and every chunk size above 0, the
  chunking loop returns; its chunks, joined in order, are the sequence itself; no
  chunk is empty or longer than the chunk size; and every chunk before the last has
  exactly the chunk size.
\<close>

theorem C7_chunks_partition:
  assumes "0 < chunkSize"
  shows "\<exists>chunks. chunk_indices chunkSize requestedIndices = Some chunks \<and>
           concat chunks = requestedIndices \<and>
           list_all (\<lambda>c. c \<noteq> [] \<and> length c \<le> chunkSize) chunks \<and>
           list_all (\<lambda>c. length c = chunkSize) (butlast chunks)"
  using chunk_loop_returns[OF assms, of requestedIndices 0 "[]"]
  by (simp add: chunk_indices_def)

theorem C7_chunks_partition_witness:
  "chunk_indices CHUNK_SIZE [0, 2, 3, 4, 7, 8, 9 :: int] = Some [[0, 2, 3], [4, 7, 8], [9]]"
proof -
  have "0 < CHUNK_SIZE" by (simp add: CHUNK_SIZE_def)
  from C7_chunks_partition[OF this, of "[0, 2, 3, 4, 7, 8, 9 :: int]"]
  show ?thesis
    by (simp add: chunk_indices_def CHUNK_SIZE_def chunk_loop.simps slice_def)
qed

section \<open>Properties of code detection\<close>

lemma code_after_snoc:
  "c \<noteq> 0x5D \<Longrightarrow> (code_after (s @ [c]) = None) = (code_after s = None)"
  by (cases "\<forall>x\<in>set s. x \<noteq> 0x5D")
     (auto simp: code_after_def Let_def takeWhile_append dropWhile_append)

lemma has_code_snoc: "c \<noteq> 0x5D \<Longrightarrow> has_code (s @ [c]) = has_code s"
  by (induction s) (auto simp: code_after_snoc code_after_def)

lemma has_code_dropWhile: "has_code (dropWhile is_space s) = has_code s"
  by (induction s) (auto simp: is_space_def)

lemma has_code_drop_trailing: "has_code (rev (dropWhile is_space (rev s))) = has_code s"
proof (induction s rule: rev_induct)
  case Nil
  show ?case by simp
next
  case (snoc c s)
  show ?case
  proof (cases "is_space c")
    case True
    then have "c \<noteq> 0x5D" by (auto simp: is_space_def)
    with True snoc show ?thesis by (simp add: has_code_snoc)
  next
    case False
    then show ?thesis by simp
  qed
qed

lemma has_code_trim: "has_code (trim s) = has_code s"
  by (simp add: trim_def has_code_drop_trailing has_code_dropWhile)

lemma has_code_strip_marker: "has_code (strip_marker s) = has_code s"
  by (cases s) (auto simp: strip_marker_def has_code_dropWhile)

lemma has_code_undefined: "\<not> has_code (ascii ''undefined'')"
  by (simp add: ascii_def)

lemma has_code_stdText: "has_code (to_string (standard item)) = has_code (stdText_of item)"
proof (cases "standard item")
  case None
  then show ?thesis
    by (simp add: to_string_def stdText_of_def has_code_undefined trim_def strip_marker_def)
next
  case (Some s)
  then show ?thesis
    by (simp add: to_string_def stdText_of_def has_code_strip_marker has_code_trim)
qed

section \<open>Properties of the deduplication loop\<close>

lemma screen_item_SomeD:
  "screen_item item = Some (k, h) \<Longrightarrow> k = normalizedKey item \<and> h = has_code (stdText_of item)"
  by (auto simp: screen_item_def normalizedKey_def Let_def split: if_splits)

lemma screen_item_short: "length (stdText_of item) < 10 \<Longrightarrow> screen_item item = None"
  by (simp add: screen_item_def)

lemma dedup_invD1:
  "dedup_inv (finalItems, bodyMap) \<Longrightarrow> i < length finalItems \<Longrightarrow>
   screen_item (finalItems ! i) \<noteq> None \<and> bodyMap (normalizedKey (finalItems ! i)) = Some i"
  unfolding dedup_inv_def prod.case by blast

lemma dedup_invD2:
  "dedup_inv (finalItems, bodyMap) \<Longrightarrow> bodyMap k = Some i \<Longrightarrow>
   i < length finalItems \<and> normalizedKey (finalItems ! i) = k"
  unfolding dedup_inv_def prod.case by blast

lemma dedup_invI:
  "(\<And>i. i < length finalItems \<Longrightarrow>
      screen_item (finalItems ! i) \<noteq> None \<and> bodyMap (normalizedKey (finalItems ! i)) = Some i) \<Longrightarrow>
   (\<And>k i. bodyMap k = Some i \<Longrightarrow>
      i < length finalItems \<and> normalizedKey (finalItems ! i) = k) \<Longrightarrow>
   dedup_inv (finalItems, bodyMap)"
  unfolding dedup_inv_def prod.case by blast

lemma dedup_item_cases:
  assumes "dedup_inv (finalItems, bodyMap)"
  shows "dedup_item (finalItems, bodyMap) item =
     (case screen_item item of
        None \<Rightarrow> Inr (finalItems, bodyMap)
      | Some (k, h) \<Rightarrow>
          (case bodyMap k of
             Some index \<Rightarrow>
               if \<not> has_code (stdText_of (finalItems ! index)) \<and> h
               then Inr (finalItems[index := item], bodyMap)
               else Inr (finalItems, bodyMap)
           | None \<Rightarrow> Inr (finalItems @ [item], bodyMap(k \<mapsto> length finalItems))))"
  using dedup_invD2[OF assms]
  by (auto simp: dedup_item_def Let_def has_code_stdText split: option.splits)

lemma dedup_inv_step:
  assumes inv: "dedup_inv st"
  shows "\<exists>st'. dedup_item st item = Inr st' \<and> dedup_inv st'"
proof -
  obtain finalItems bodyMap where st: "st = (finalItems, bodyMap)" by (cases st)
  note inv' = inv[unfolded st]
  note a = dedup_invD1[OF inv'] and b = dedup_invD2[OF inv']
  show ?thesis
  proof (cases "screen_item item")
    case None
    then show ?thesis using inv' by (simp add: st dedup_item_cases[OF inv'])
  next
    case (Some kh)
    obtain k h where kh: "kh = (k, h)" by (cases kh)
    from Some kh have key: "k = normalizedKey item" and ok: "screen_item item \<noteq> None"
      by (auto dest: screen_item_SomeD)
    show ?thesis
    proof (cases "bodyMap k")
      case None
      let ?F = "finalItems @ [item]" and ?M = "bodyMap(k \<mapsto> length finalItems)"
      have "dedup_inv (?F, ?M)"
      proof (rule dedup_invI)
        fix i assume i: "i < length ?F"
        show "screen_item (?F ! i) \<noteq> None \<and> ?M (normalizedKey (?F ! i)) = Some i"
        proof (cases "i = length finalItems")
          case True
          then show ?thesis using ok key by simp
        next
          case False
          with i have lt: "i < length finalItems" by simp
          from a[OF lt] None have "normalizedKey (finalItems ! i) \<noteq> k" by auto
          with a[OF lt] lt show ?thesis by (simp add: nth_append)
        qed
      next
        fix k' i assume m: "?M k' = Some i"
        show "i < length ?F \<and> normalizedKey (?F ! i) = k'"
        proof (cases "k' = k")
          case True
          with m have "i = length finalItems" by simp
          with True key show ?thesis by simp
        next
          case False
          with m have "bodyMap k' = Some i" by simp
          from b[OF this] show ?thesis by (simp add: nth_append)
        qed
      qed
      with None Some kh show ?thesis
        by (simp add: st dedup_item_cases[OF inv'])
    next
      case (Some index)
      from b[OF Some] have idx: "index < length finalItems"
        and kidx: "normalizedKey (finalItems ! index) = k" by simp_all
      let ?F = "finalItems[index := item]"
      have "dedup_inv (?F, bodyMap)"
      proof (rule dedup_invI)
        fix i assume i: "i < length ?F"
        then have lt: "i < length finalItems" by simp
        show "screen_item (?F ! i) \<noteq> None \<and> bodyMap (normalizedKey (?F ! i)) = Some i"
          using a[OF lt] ok key Some lt by (cases "i = index") simp_all
      next
        fix k' i assume m: "bodyMap k' = Some i"
        show "i < length ?F \<and> normalizedKey (?F ! i) = k'"
          using b[OF m] key kidx by (cases "i = index") auto
      qed
      with Some \<open>screen_item item = Some kh\<close> kh inv' show ?thesis
        by (simp add: st dedup_item_cases[OF inv'])
    qed
  qed
qed

lemma dedup_inv_loop:
  "dedup_inv st \<Longrightarrow> \<exists>st'. dedup_loop st allItems = Inr st' \<and> dedup_inv st'"
proof (induction allItems arbitrary: st)
  case Nil
  then show ?case by simp
next
  case (Cons item allItems)
  from dedup_inv_step[OF Cons.prems, of item]
  obtain st1 where "dedup_item st item = Inr st1" "dedup_inv st1" by blast
  with Cons.IH[of st1] show ?case by simp
qed

lemma dedup_inv_empty: "dedup_inv ([], Map.empty)"
  by (rule dedup_invI) simp_all

lemma dedup_inv_distinct:
  assumes "dedup_inv (finalItems, bodyMap)"
  shows "distinct (map normalizedKey finalItems)"
proof -
  have "i = j" if "i < length finalItems" "j < length finalItems"
    "normalizedKey (finalItems ! i) = normalizedKey (finalItems ! j)" for i j
  proof -
    from dedup_invD1[OF assms that(1)]
    have "bodyMap (normalizedKey (finalItems ! i)) = Some i" by simp
    moreover from dedup_invD1[OF assms that(2)]
    have "bodyMap (normalizedKey (finalItems ! j)) = Some j" by simp
    ultimately show ?thesis using that(3) by (metis option.inject)
  qed
  then show ?thesis
    by (auto simp: distinct_conv_nth)
qed

lemma kept_items_inv:
  "\<exists>finalItems bodyMap. dedup_loop ([], Map.empty) allItems = Inr (finalItems, bodyMap) \<and>
     kept_items allItems = Inr finalItems \<and> dedup_inv (finalItems, bodyMap)"
proof -
  from dedup_inv_loop[OF dedup_inv_empty, of allItems]
  obtain st' where "dedup_loop ([], Map.empty) allItems = Inr st'" "dedup_inv st'" by blast
  then show ?thesis by (cases st') (simp add: kept_items_def)
qed

lemma dedup_loop_append:
  "dedup_loop st (xs @ ys) =
     (case dedup_loop st xs of Inl e \<Rightarrow> Inl e | Inr st' \<Rightarrow> dedup_loop st' ys)"
  by (induction xs arbitrary: st) (auto split: sum.splits)

lemma dedup_item_skip: "screen_item item = None \<Longrightarrow> dedup_item st item = Inr st"
  by (cases st) (simp add: dedup_item_def)


text \<open>
  Claim C10. For every list of candidates the deduplication returns, and no two of
  the items it keeps have the same normalized key, computed from the standard text of
  the item as it was accepted; the returned records are these items, sanitized, in
  the same order.
\<close>

theorem C10_keys_unique:
  "\<exists>finalItems.
     kept_items allItems = Inr finalItems \<and>
     distinct (map normalizedKey finalItems) \<and>
     consolidate clock allItems =
       Inr (map (\<lambda>(item, idx). to_plan_item clock item idx)
              (zip finalItems [0..<length finalItems]))"
proof -
  from kept_items_inv[of allItems]
  obtain finalItems bodyMap where "kept_items allItems = Inr finalItems"
    and "dedup_inv (finalItems, bodyMap)" by blast
  then show ?thesis
    by (auto simp: consolidate_def dest: dedup_inv_distinct)
qed

text \<open>
  Claim C2, amended. A candidate whose cleaned standard text (trimmed, with the
  leading marker removed, the bracketed code still in it) is shorter than 10 units has
  no effect on the output: the consolidation returns what it returns without it.
\<close>

theorem C2_short_text_excluded:
  assumes "length (stdText_of item) < 10"
  shows "consolidate clock (before @ item # after) = consolidate clock (before @ after)"
proof -
  have skip: "dedup_item st item = Inr st" for st
    by (rule dedup_item_skip) (rule screen_item_short[OF assms])
  have "dedup_loop st (before @ item # after) = dedup_loop st (before @ after)" for st
    by (simp add: dedup_loop_append skip split: sum.splits)
  then show ?thesis
    by (simp add: consolidate_def kept_items_def)
qed

section \<open>Evaluating the filters and the loop on short lists\<close>

lemma screen_item_eval:
  assumes "stdText_of item = t" and "10 \<le> length t" and "has_code t = hc"
    and "bodyText_of t = b" and "cleanBody_of b = k"
    and "\<not> list_ex (\<lambda>h. k = h \<or> includes_str k code_phrase) headers"
    and "hc \<or> ends_in [0xB2E4, 0x2E, 0x3F] b \<or> ends_in [0xC784, 0xC74C, 0xD568] b \<or> 5 \<le> length k"
  shows "screen_item item = (if same_as_unit item k then None else Some (k, hc))"
  using assms by (auto simp: screen_item_def Let_def)

lemma same_as_unit_plain: "\<not> same_as_unit (plain_candidate s) k"
  by (simp add: same_as_unit_def plain_candidate_def)

lemma dedup_item_first:
  "screen_item a = Some (k, h) \<Longrightarrow> dedup_item ([], Map.empty) a = Inr ([a], [k \<mapsto> 0])"
  by (simp add: dedup_item_def)

lemma consolidate_single:
  "screen_item a = Some (k, h) \<Longrightarrow> consolidate clock [a] = Inr [to_plan_item clock a 0]"
  by (simp add: consolidate_def kept_items_def dedup_item_first)

lemma consolidate_single_dropped:
  "screen_item a = None \<Longrightarrow> consolidate clock [a] = Inr []"
  by (simp add: consolidate_def kept_items_def dedup_item_skip)

lemma consolidate_kept_then_dropped:
  "screen_item a = Some (k, h) \<Longrightarrow> screen_item b = None \<Longrightarrow>
   consolidate clock [a, b] = Inr [to_plan_item clock a 0]"
  by (simp add: consolidate_def kept_items_def dedup_item_first dedup_item_skip)

lemma stdText_coded:
  "standard item = Some ex_coded_standard \<Longrightarrow> stdText_of item = ex_coded_standard"
  by (simp add: stdText_of_def trim_def strip_marker_def is_space_def ex_coded_standard_def)

lemma stdText_uncoded:
  "standard item = Some ex_uncoded_standard \<Longrightarrow> stdText_of item = ex_uncoded_standard"
  by (simp add: stdText_of_def trim_def strip_marker_def is_space_def ex_uncoded_standard_def)

lemma stdText_noun:
  "standard item = Some ex_noun_standard \<Longrightarrow> stdText_of item = ex_noun_standard"
  by (simp add: stdText_of_def trim_def strip_marker_def is_space_def ex_noun_standard_def)

lemma stdText_short_body:
  "standard item = Some ex_short_body_standard \<Longrightarrow> stdText_of item = ex_short_body_standard"
  by (simp add: stdText_of_def trim_def strip_marker_def is_space_def ex_short_body_standard_def)

lemma has_code_coded: "has_code ex_coded_standard"
  by (simp add: ex_coded_standard_def code_after_def)

lemma has_code_uncoded: "\<not> has_code ex_uncoded_standard"
  by (simp add: ex_uncoded_standard_def)

lemma has_code_short_body: "has_code ex_short_body_standard"
  by (simp add: ex_short_body_standard_def code_after_def)

lemma bodyText_coded: "bodyText_of ex_coded_standard = ex_uncoded_standard"
proof -
  have "remove_codes ex_coded_standard = 0x20 # ex_uncoded_standard"
    by (simp add: ex_coded_standard_def ex_uncoded_standard_def code_after_def)
  then show ?thesis
    by (simp add: bodyText_of_def trim_def is_space_def ex_uncoded_standard_def)
qed

lemma bodyText_uncoded: "bodyText_of ex_uncoded_standard = ex_uncoded_standard"
proof -
  have "remove_codes ex_uncoded_standard = ex_uncoded_standard"
    by (simp add: ex_uncoded_standard_def)
  then show ?thesis
    by (simp add: bodyText_of_def trim_def is_space_def ex_uncoded_standard_def)
qed

lemma bodyText_short_body:
  "bodyText_of ex_short_body_standard = [0xC774, 0xD574, 0xD55C, 0xB2E4, 0x2E]"
proof -
  have "remove_codes ex_short_body_standard = [0x20, 0xC774, 0xD574, 0xD55C, 0xB2E4, 0x2E]"
    by (simp add: ex_short_body_standard_def code_after_def)
  then show ?thesis
    by (simp add: bodyText_of_def trim_def is_space_def)
qed

text \<open>The key of the example sentence: its ten units other than the space.\<close>

lemma cleanBody_uncoded:
  "cleanBody_of ex_uncoded_standard =
     [0xC9C0, 0xC218, 0xBC95, 0xCE59, 0xC744, 0xC774, 0xD574, 0xD55C, 0xB2E4, 0x2E]"
  by (simp add: cleanBody_of_def remove_spaces_def is_space_def ex_uncoded_standard_def)

lemma cleanBody_short_body:
  "cleanBody_of [0xC774, 0xD574, 0xD55C, 0xB2E4, 0x2E] = [0xC774, 0xD574, 0xD55C, 0xB2E4, 0x2E]"
  by (simp add: cleanBody_of_def remove_spaces_def is_space_def)

lemma no_header_uncoded:
  "\<not> list_ex (\<lambda>h. [0xC9C0, 0xC218, 0xBC95, 0xCE59, 0xC744, 0xC774, 0xD574, 0xD55C, 0xB2E4, 0x2E] = h \<or>
        includes_str [0xC9C0, 0xC218, 0xBC95, 0xCE59, 0xC744, 0xC774, 0xD574, 0xD55C, 0xB2E4, 0x2E]
          code_phrase) headers"
  by (simp add: headers_def code_phrase_def)

lemma no_header_short_body:
  "\<not> list_ex (\<lambda>h. [0xC774, 0xD574, 0xD55C, 0xB2E4, 0x2E] = h \<or>
        includes_str [0xC774, 0xD574, 0xD55C, 0xB2E4, 0x2E] code_phrase) headers"
  by (simp add: headers_def code_phrase_def)

lemma ends_in_uncoded: "ends_in [0xB2E4, 0x2E, 0x3F] ex_uncoded_standard"
  by (simp add: ends_in_def ex_uncoded_standard_def)

lemma screen_item_coded:
  assumes "standard item = Some ex_coded_standard"
  shows "screen_item item =
     (if same_as_unit item [0xC9C0, 0xC218, 0xBC95, 0xCE59, 0xC744, 0xC774, 0xD574, 0xD55C, 0xB2E4, 0x2E]
      then None
      else Some ([0xC9C0, 0xC218, 0xBC95, 0xCE59, 0xC744, 0xC774, 0xD574, 0xD55C, 0xB2E4, 0x2E], True))"
proof (rule screen_item_eval[OF stdText_coded[OF assms] _ _ bodyText_coded cleanBody_uncoded
      no_header_uncoded])
  show "10 \<le> length ex_coded_standard" by (simp add: ex_coded_standard_def)
  show "has_code ex_coded_standard = True" using has_code_coded by simp
  show "True \<or> ends_in [0xB2E4, 0x2E, 0x3F] ex_uncoded_standard \<or>
        ends_in [0xC784, 0xC74C, 0xD568] ex_uncoded_standard \<or>
        5 \<le> length [0xC9C0, 0xC218, 0xBC95, 0xCE59, 0xC744, 0xC774, 0xD574, 0xD55C, 0xB2E4, 0x2E :: jchar]"
    by simp
qed

lemma screen_item_uncoded:
  assumes "standard item = Some ex_uncoded_standard"
  shows "screen_item item =
     (if same_as_unit item [0xC9C0, 0xC218, 0xBC95, 0xCE59, 0xC744, 0xC774, 0xD574, 0xD55C, 0xB2E4, 0x2E]
      then None
      else Some ([0xC9C0, 0xC218, 0xBC95, 0xCE59, 0xC744, 0xC774, 0xD574, 0xD55C, 0xB2E4, 0x2E], False))"
proof (rule screen_item_eval[OF stdText_uncoded[OF assms] _ _ bodyText_uncoded cleanBody_uncoded
      no_header_uncoded])
  show "10 \<le> length ex_uncoded_standard" by (simp add: ex_uncoded_standard_def)
  show "has_code ex_uncoded_standard = False" using has_code_uncoded by simp
  show "False \<or> ends_in [0xB2E4, 0x2E, 0x3F] ex_uncoded_standard \<or>
        ends_in [0xC784, 0xC74C, 0xD568] ex_uncoded_standard \<or>
        5 \<le> length [0xC9C0, 0xC218, 0xBC95, 0xCE59, 0xC744, 0xC774, 0xD574, 0xD55C, 0xB2E4, 0x2E :: jchar]"
    by simp
qed

lemma screen_item_short_body:
  assumes "standard item = Some ex_short_body_standard"
  shows "screen_item item =
     (if same_as_unit item [0xC774, 0xD574, 0xD55C, 0xB2E4, 0x2E] then None
      else Some ([0xC774, 0xD574, 0xD55C, 0xB2E4, 0x2E], True))"
proof (rule screen_item_eval[OF stdText_short_body[OF assms] _ _ bodyText_short_body
      cleanBody_short_body no_header_short_body])
  show "10 \<le> length ex_short_body_standard" by (simp add: ex_short_body_standard_def)
  show "has_code ex_short_body_standard = True" using has_code_short_body by simp
  show "True \<or> ends_in [0xB2E4, 0x2E, 0x3F] [0xC774, 0xD574, 0xD55C, 0xB2E4, 0x2E] \<or>
        ends_in [0xC784, 0xC74C, 0xD568] [0xC774, 0xD574, 0xD55C, 0xB2E4, 0x2E] \<or>
        5 \<le> length [0xC774, 0xD574, 0xD55C, 0xB2E4, 0x2E :: jchar]"
    by simp
qed

lemma screen_item_noun:
  "standard item = Some ex_noun_standard \<Longrightarrow> screen_item item = None"
  by (rule screen_item_short) (simp add: stdText_noun, simp add: ex_noun_standard_def)

lemma standard_plain: "standard (plain_candidate s) = Some s"
  by (simp add: plain_candidate_def)

section \<open>The claims about the filters and the deduplication\<close>

theorem C10_keys_unique_witness:
  "kept_items [plain_candidate ex_uncoded_standard, plain_candidate ex_coded_standard,
               plain_candidate ex_noun_standard]
     = Inr [plain_candidate ex_coded_standard] \<and>
   distinct (map normalizedKey [plain_candidate ex_coded_standard])"
proof -
  have "dedup_item ([plain_candidate ex_uncoded_standard],
          [[0xC9C0, 0xC218, 0xBC95, 0xCE59, 0xC744, 0xC774, 0xD574, 0xD55C, 0xB2E4, 0x2E] \<mapsto> 0])
          (plain_candidate ex_coded_standard)
        = Inr ([plain_candidate ex_coded_standard],
          [[0xC9C0, 0xC218, 0xBC95, 0xCE59, 0xC744, 0xC774, 0xD574, 0xD55C, 0xB2E4, 0x2E] \<mapsto> 0])"
    by (simp add: dedup_item_def screen_item_coded[OF standard_plain] same_as_unit_plain
          has_code_stdText stdText_uncoded[OF standard_plain] has_code_uncoded)
  then have "kept_items [plain_candidate ex_uncoded_standard, plain_candidate ex_coded_standard,
               plain_candidate ex_noun_standard] = Inr [plain_candidate ex_coded_standard]"
    by (simp add: kept_items_def dedup_item_first[OF screen_item_uncoded[OF standard_plain, simplified same_as_unit_plain if_False]]
          dedup_item_skip[OF screen_item_noun[OF standard_plain]])
  with C10_keys_unique[of "[plain_candidate ex_uncoded_standard, plain_candidate ex_coded_standard,
               plain_candidate ex_noun_standard]" ex_clock]
  show ?thesis by simp
qed

text \<open>
  Claim C2 as stated fails: the candidate "[9su01-01] ihaehanda." has a cleaned body
  of 5 units once the code is removed, and the consolidation returns its record.
\<close>

theorem C2_counterexample:
  "length (bodyText_of (stdText_of (plain_candidate ex_short_body_standard))) = 5 \<and>
   consolidate ex_clock [plain_candidate ex_short_body_standard]
     = Inr [to_plan_item ex_clock (plain_candidate ex_short_body_standard) 0] \<and>
   tp_standard (to_plan_item ex_clock (plain_candidate ex_short_body_standard) 0)
     = ex_short_body_standard"
proof -
  have "screen_item (plain_candidate ex_short_body_standard)
          = Some ([0xC774, 0xD574, 0xD55C, 0xB2E4, 0x2E], True)"
    by (simp add: screen_item_short_body[OF standard_plain] same_as_unit_plain)
  then have "consolidate ex_clock [plain_candidate ex_short_body_standard]
     = Inr [to_plan_item ex_clock (plain_candidate ex_short_body_standard) 0]"
    by (rule consolidate_single)
  moreover have "tp_standard (to_plan_item ex_clock (plain_candidate ex_short_body_standard) 0)
     = ex_short_body_standard"
    by (simp add: to_plan_item_def plain_candidate_def sanitizeText_def replace_halfwidth_def
          ex_short_body_standard_def)
  ultimately show ?thesis
    by (simp add: stdText_short_body[OF standard_plain] bodyText_short_body)
qed

theorem C2_short_text_excluded_witness:
  "length (stdText_of (plain_candidate ex_noun_standard)) < 10 \<and>
   consolidate ex_clock ([plain_candidate ex_coded_standard] @ plain_candidate ex_noun_standard # [])
     = consolidate ex_clock ([plain_candidate ex_coded_standard] @ [])"
proof -
  have short: "length (stdText_of (plain_candidate ex_noun_standard)) < 10"
    by (subst stdText_noun[OF standard_plain]) (simp add: ex_noun_standard_def)
  from short C2_short_text_excluded[OF short, of ex_clock "[plain_candidate ex_coded_standard]" "[]"]
  show ?thesis by simp
qed

text \<open>
  Claim C3. For the two candidates whose standards are "[9su01-01] jisu-beopchig-eul
  ihaehanda." and the noun phrase "ilcha-bangjeongsig-ui puri", whatever their other
  fields, the consolidation returns exactly one record, the one of the coded
  standard, provided the unit of the coded candidate does not repeat its standard
  (the filter of unit names).
\<close>

theorem C3_coded_standard_only:
  assumes "standard a = Some ex_coded_standard"
    and "standard b = Some ex_noun_standard"
    and "\<not> same_as_unit a (normalizedKey a)"
  shows "consolidate clock [a, b] = Inr [to_plan_item clock a 0]"
proof -
  have key: "normalizedKey a =
      [0xC9C0, 0xC218, 0xBC95, 0xCE59, 0xC744, 0xC774, 0xD574, 0xD55C, 0xB2E4, 0x2E]"
    by (simp add: normalizedKey_def stdText_coded[OF assms(1)] bodyText_coded cleanBody_uncoded)
  with assms(3) have "screen_item a =
      Some ([0xC9C0, 0xC218, 0xBC95, 0xCE59, 0xC744, 0xC774, 0xD574, 0xD55C, 0xB2E4, 0x2E], True)"
    by (simp add: screen_item_coded[OF assms(1)])
  moreover have "screen_item b = None"
    by (rule screen_item_noun[OF assms(2)])
  ultimately show ?thesis
    by (rule consolidate_kept_then_dropped)
qed

theorem C3_coded_standard_only_witness:
  "consolidate ex_clock [plain_candidate ex_coded_standard, plain_candidate ex_noun_standard]
     = Inr [to_plan_item ex_clock (plain_candidate ex_coded_standard) 0] \<and>
   tp_standard (to_plan_item ex_clock (plain_candidate ex_coded_standard) 0) = ex_coded_standard"
proof -
  have "consolidate ex_clock [plain_candidate ex_coded_standard, plain_candidate ex_noun_standard]
     = Inr [to_plan_item ex_clock (plain_candidate ex_coded_standard) 0]"
    by (rule C3_coded_standard_only[OF standard_plain standard_plain same_as_unit_plain])
  moreover have "tp_standard (to_plan_item ex_clock (plain_candidate ex_coded_standard) 0)
      = ex_coded_standard"
    by (simp add: to_plan_item_def plain_candidate_def sanitizeText_def replace_halfwidth_def
          ex_coded_standard_def)
  ultimately show ?thesis by simp
qed

section \<open>Consolidating the output again\<close>

lemma map_zip_index:
  "map (\<lambda>(x, i). f x i) (zip xs [0..<length xs]) = map (\<lambda>i. f (xs ! i) i) [0..<length xs]"
  by (rule nth_equalityI) simp_all

lemma dedup_item_subset:
  assumes "dedup_item (finalItems, bodyMap) item = Inr (finalItems', bodyMap')"
  shows "set finalItems' \<subseteq> insert item (set finalItems)"
proof -
  from assms have "finalItems' = finalItems \<or> (\<exists>i. finalItems' = finalItems[i := item]) \<or>
      finalItems' = finalItems @ [item]"
    by (auto simp: dedup_item_def Let_def split: option.splits if_splits)
  moreover have "set (finalItems[i := item]) \<subseteq> insert item (set finalItems)" for i
    by (rule set_update_subset_insert)
  ultimately show ?thesis by auto
qed

lemma dedup_loop_subset:
  "dedup_loop (finalItems, bodyMap) allItems = Inr (finalItems', bodyMap') \<Longrightarrow>
   set finalItems' \<subseteq> set finalItems \<union> set allItems"
proof (induction allItems arbitrary: finalItems bodyMap)
  case Nil
  then show ?case by simp
next
  case (Cons item allItems)
  from Cons.prems obtain F1 M1 where step: "dedup_item (finalItems, bodyMap) item = Inr (F1, M1)"
    and rest: "dedup_loop (F1, M1) allItems = Inr (finalItems', bodyMap')"
    by (auto split: sum.splits)
  from Cons.IH[OF rest] dedup_item_subset[OF step] show ?case by auto
qed

lemma dedup_loop_fresh:
  assumes "dedup_inv (finalItems, bodyMap)"
    and "\<forall>y\<in>set ys. screen_item y \<noteq> None"
    and "distinct (map normalizedKey ys)"
    and "\<forall>y\<in>set ys. bodyMap (normalizedKey y) = None"
  shows "\<exists>bodyMap'. dedup_loop (finalItems, bodyMap) ys = Inr (finalItems @ ys, bodyMap')"
  using assms
proof (induction ys arbitrary: finalItems bodyMap)
  case Nil
  then show ?case by simp
next
  case (Cons y ys)
  from Cons.prems(2) obtain k h where sc: "screen_item y = Some (k, h)" by auto
  then have k: "k = normalizedKey y" by (auto dest: screen_item_SomeD)
  with Cons.prems(4) have none: "bodyMap k = None" by simp
  let ?M = "bodyMap(k \<mapsto> length finalItems)"
  have step: "dedup_item (finalItems, bodyMap) y = Inr (finalItems @ [y], ?M)"
    by (simp add: dedup_item_cases[OF Cons.prems(1)] sc none)
  from dedup_inv_step[OF Cons.prems(1), of y] step
  have inv: "dedup_inv (finalItems @ [y], ?M)" by simp
  have fresh: "\<forall>z\<in>set ys. ?M (normalizedKey z) = None"
    using Cons.prems(3,4) k by (auto simp: image_iff)
  have pass: "\<forall>z\<in>set ys. screen_item z \<noteq> None"
    using Cons.prems(2) by simp
  have dist: "distinct (map normalizedKey ys)"
    using Cons.prems(3) by simp
  from Cons.IH[OF inv pass dist fresh]
  obtain M' where "dedup_loop (finalItems @ [y], ?M) ys = Inr ((finalItems @ [y]) @ ys, M')"
    by blast
  with step show ?case by simp
qed

lemma stdText_of_resanitized:
  assumes "clean_fields item"
  shows "stdText_of (as_candidate (to_plan_item clock item idx)) = stdText_of item"
  using assms
  by (simp add: clean_fields_def stdText_of_def as_candidate_def to_plan_item_def)

lemma same_as_unit_resanitized:
  assumes "clean_fields item"
  shows "same_as_unit (as_candidate (to_plan_item clock item idx)) k = same_as_unit item k"
  using assms
  by (cases "unit item")
     (auto simp: clean_fields_def same_as_unit_def as_candidate_def to_plan_item_def)

lemma screen_item_resanitized:
  "clean_fields item \<Longrightarrow>
   screen_item (as_candidate (to_plan_item clock item idx)) = screen_item item"
  by (simp add: screen_item_def Let_def stdText_of_resanitized same_as_unit_resanitized)

lemma normalizedKey_resanitized:
  "clean_fields item \<Longrightarrow>
   normalizedKey (as_candidate (to_plan_item clock item idx)) = normalizedKey item"
  by (simp add: normalizedKey_def stdText_of_resanitized)

lemma to_plan_item_resanitized:
  "to_plan_item clock (as_candidate (to_plan_item clock item idx)) idx = to_plan_item clock item idx"
  by (simp add: to_plan_item_def as_candidate_def sanitizeText_Some_idem)

lemma consolidate_of_kept:
  "kept_items allItems = Inr F \<Longrightarrow>
   consolidate clock allItems = Inr (map (\<lambda>i. to_plan_item clock (F ! i) i) [0..<length F])"
  by (simp add: consolidate_def map_zip_index)

lemma consolidate_again:
  assumes clean: "list_all clean_fields allItems"
  shows "\<exists>out. consolidate clock allItems = Inr out \<and>
           consolidate clock (map as_candidate out) = Inr out"
proof -
  from kept_items_inv[of allItems]
  obtain F M where loop: "dedup_loop ([], Map.empty) allItems = Inr (F, M)"
    and kept: "kept_items allItems = Inr F" and inv: "dedup_inv (F, M)" by blast
  let ?n = "length F"
  let ?out = "map (\<lambda>i. to_plan_item clock (F ! i) i) [0..<?n]"
  let ?ys = "map as_candidate ?out"
  have out: "consolidate clock allItems = Inr ?out"
    by (rule consolidate_of_kept[OF kept])
  from dedup_loop_subset[OF loop] have sub: "set F \<subseteq> set allItems" by simp
  have cleanF: "clean_fields (F ! i)" if "i < ?n" for i
  proof -
    from that have "F ! i \<in> set F" by (rule nth_mem)
    with sub have "F ! i \<in> set allItems" by blast
    with clean show ?thesis by (simp add: list_all_iff)
  qed
  have len: "length ?ys = ?n" by simp
  have nth: "?ys ! i = as_candidate (to_plan_item clock (F ! i) i)" if "i < ?n" for i
    using that by simp
  have keys: "map normalizedKey ?ys = map normalizedKey F"
    by (rule nth_equalityI) (simp_all add: normalizedKey_resanitized cleanF)
  have pass: "\<forall>y\<in>set ?ys. screen_item y \<noteq> None"
  proof
    fix y assume "y \<in> set ?ys"
    then obtain i where i: "i < ?n" and y: "y = as_candidate (to_plan_item clock (F ! i) i)"
      by auto
    from dedup_invD1[OF inv i] screen_item_resanitized[OF cleanF[OF i], of clock i] y
    show "screen_item y \<noteq> None" by simp
  qed
  have dist: "distinct (map normalizedKey ?ys)"
    using dedup_inv_distinct[OF inv] keys by simp
  from dedup_loop_fresh[OF dedup_inv_empty pass dist]
  obtain M' where "dedup_loop ([], Map.empty) ?ys = Inr (?ys, M')" by auto
  then have "kept_items ?ys = Inr ?ys"
    by (simp add: kept_items_def)
  then have "consolidate clock ?ys =
      Inr (map (\<lambda>i. to_plan_item clock (?ys ! i) i) [0..<length ?ys])"
    by (rule consolidate_of_kept)
  also have "map (\<lambda>i. to_plan_item clock (?ys ! i) i) [0..<length ?ys] = ?out"
    by (rule nth_equalityI) (simp_all add: to_plan_item_resanitized)
  finally show ?thesis using out by blast
qed

text \<open>
  Claim C6 as stated fails: the standard "ga", corrupted pair, "na ihaehanda." has
  10 units and is kept; its record carries the sanitized text of 9 units, which a
  second consolidation drops.
\<close>

theorem C6_counterexample:
  "consolidate ex_clock [plain_candidate ex_corrupt_standard]
     = Inr [to_plan_item ex_clock (plain_candidate ex_corrupt_standard) 0] \<and>
   consolidate ex_clock
     (map as_candidate [to_plan_item ex_clock (plain_candidate ex_corrupt_standard) 0])
     = Inr []"
proof -
  have std: "stdText_of (plain_candidate ex_corrupt_standard) = ex_corrupt_standard"
    by (simp add: stdText_of_def plain_candidate_def trim_def strip_marker_def is_space_def
          ex_corrupt_standard_def)
  have body: "bodyText_of ex_corrupt_standard = ex_corrupt_standard"
  proof -
    have "remove_codes ex_corrupt_standard = ex_corrupt_standard"
      by (simp add: ex_corrupt_standard_def)
    then show ?thesis
      by (simp add: bodyText_of_def trim_def is_space_def ex_corrupt_standard_def)
  qed
  have clean: "cleanBody_of ex_corrupt_standard =
      [0xAC00, 0xC544, 0x1162, 0xB098, 0xC774, 0xD574, 0xD55C, 0xB2E4, 0x2E]"
    by (simp add: cleanBody_of_def remove_spaces_def is_space_def ex_corrupt_standard_def)
  have no_header: "\<not> list_ex (\<lambda>h.
        [0xAC00, 0xC544, 0x1162, 0xB098, 0xC774, 0xD574, 0xD55C, 0xB2E4, 0x2E] = h \<or>
        includes_str [0xAC00, 0xC544, 0x1162, 0xB098, 0xC774, 0xD574, 0xD55C, 0xB2E4, 0x2E]
          code_phrase) headers"
    by (simp add: headers_def code_phrase_def)
  have "screen_item (plain_candidate ex_corrupt_standard) =
      (if same_as_unit (plain_candidate ex_corrupt_standard)
            [0xAC00, 0xC544, 0x1162, 0xB098, 0xC774, 0xD574, 0xD55C, 0xB2E4, 0x2E]
       then None
       else Some ([0xAC00, 0xC544, 0x1162, 0xB098, 0xC774, 0xD574, 0xD55C, 0xB2E4, 0x2E], False))"
  proof (rule screen_item_eval[OF std _ _ body clean no_header])
    show "10 \<le> length ex_corrupt_standard" by (simp add: ex_corrupt_standard_def)
    show "has_code ex_corrupt_standard = False" by (simp add: ex_corrupt_standard_def)
    show "False \<or> ends_in [0xB2E4, 0x2E, 0x3F] ex_corrupt_standard \<or>
        ends_in [0xC784, 0xC74C, 0xD568] ex_corrupt_standard \<or>
        5 \<le> length [0xAC00, 0xC544, 0x1162, 0xB098, 0xC774, 0xD574, 0xD55C, 0xB2E4, 0x2E :: jchar]"
      by simp
  qed
  then have "screen_item (plain_candidate ex_corrupt_standard) =
      Some ([0xAC00, 0xC544, 0x1162, 0xB098, 0xC774, 0xD574, 0xD55C, 0xB2E4, 0x2E], False)"
    by (simp add: same_as_unit_plain)
  then have first: "consolidate ex_clock [plain_candidate ex_corrupt_standard]
     = Inr [to_plan_item ex_clock (plain_candidate ex_corrupt_standard) 0]"
    by (rule consolidate_single)
  have "sanitizeText (Some ex_corrupt_standard) =
      [0xAC00, 0xB7, 0xB098, 0x20, 0xC774, 0xD574, 0xD55C, 0xB2E4, 0x2E]"
    by (simp add: sanitizeText_def replace_halfwidth_def middle_dot_def ex_corrupt_standard_def)
  then have "stdText_of (as_candidate (to_plan_item ex_clock (plain_candidate ex_corrupt_standard) 0))
      = [0xAC00, 0xB7, 0xB098, 0x20, 0xC774, 0xD574, 0xD55C, 0xB2E4, 0x2E]"
    by (simp add: stdText_of_def as_candidate_def to_plan_item_def plain_candidate_def
          trim_def strip_marker_def is_space_def)
  then have "screen_item (as_candidate (to_plan_item ex_clock (plain_candidate ex_corrupt_standard) 0))
      = None"
    by (simp add: screen_item_short)
  then have "consolidate ex_clock
      [as_candidate (to_plan_item ex_clock (plain_candidate ex_corrupt_standard) 0)] = Inr []"
    by (rule consolidate_single_dropped)
  with first show ?thesis by simp
qed

text \<open>
  Claim C6, amended. When the sanitizer leaves the standard and the unit of every
  input candidate unchanged, the consolidation returns, and consolidating its
  records again, with the same clock readings, returns the same records.
\<close>

theorem C6_idempotent_on_clean_input:
  assumes "list_all clean_fields allItems"
  shows "\<exists>out. consolidate clock allItems = Inr out \<and>
           consolidate clock (map as_candidate out) = Inr out"
  by (rule consolidate_again[OF assms])

theorem C6_idempotent_on_clean_input_witness:
  "list_all clean_fields [plain_candidate ex_uncoded_standard, plain_candidate ex_coded_standard] \<and>
   consolidate ex_clock [plain_candidate ex_uncoded_standard, plain_candidate ex_coded_standard]
     = Inr [to_plan_item ex_clock (plain_candidate ex_coded_standard) 0] \<and>
   consolidate ex_clock (map as_candidate [to_plan_item ex_clock (plain_candidate ex_coded_standard) 0])
     = Inr [to_plan_item ex_clock (plain_candidate ex_coded_standard) 0]"
proof -
  have c1: "clean_fields (plain_candidate ex_uncoded_standard)"
    by (simp add: clean_fields_def plain_candidate_def sanitizeText_def replace_halfwidth_def
          ex_uncoded_standard_def)
  have c2: "clean_fields (plain_candidate ex_coded_standard)"
    by (simp add: clean_fields_def plain_candidate_def sanitizeText_def replace_halfwidth_def
          ex_coded_standard_def)
  have clean: "list_all clean_fields
      [plain_candidate ex_uncoded_standard, plain_candidate ex_coded_standard]"
    using c1 c2 by simp
  have a: "screen_item (plain_candidate ex_uncoded_standard) =
      Some ([0xC9C0, 0xC218, 0xBC95, 0xCE59, 0xC744, 0xC774, 0xD574, 0xD55C, 0xB2E4, 0x2E], False)"
    by (simp add: screen_item_uncoded[OF standard_plain] same_as_unit_plain)
  have b: "screen_item (plain_candidate ex_coded_standard) =
      Some ([0xC9C0, 0xC218, 0xBC95, 0xCE59, 0xC744, 0xC774, 0xD574, 0xD55C, 0xB2E4, 0x2E], True)"
    by (simp add: screen_item_coded[OF standard_plain] same_as_unit_plain)
  have "dedup_item ([plain_candidate ex_uncoded_standard],
          [[0xC9C0, 0xC218, 0xBC95, 0xCE59, 0xC744, 0xC774, 0xD574, 0xD55C, 0xB2E4, 0x2E] \<mapsto> 0])
          (plain_candidate ex_coded_standard)
        = Inr ([plain_candidate ex_coded_standard],
          [[0xC9C0, 0xC218, 0xBC95, 0xCE59, 0xC744, 0xC774, 0xD574, 0xD55C, 0xB2E4, 0x2E] \<mapsto> 0])"
    by (simp add: dedup_item_def b has_code_stdText stdText_uncoded[OF standard_plain]
          has_code_uncoded)
  then have first: "consolidate ex_clock
      [plain_candidate ex_uncoded_standard, plain_candidate ex_coded_standard]
     = Inr [to_plan_item ex_clock (plain_candidate ex_coded_standard) 0]"
    by (simp add: consolidate_def kept_items_def dedup_item_first[OF a])
  from C6_idempotent_on_clean_input[OF clean, of ex_clock] first clean
  show ?thesis by auto
qed

section \<open>The slot of a key\<close>

text \<open>
  An item is harmless for the slot of key \<open>k\<close> holding \<open>x\<close> when it cannot replace
  \<open>x\<close>: \<open>x\<close> bears a code, or the item does not pass the filters with key \<open>k\<close>, or
  it passes without a code.
\<close>

lemma slot_step:
  assumes inv: "dedup_inv (F, M)" and slot: "M k = Some n"
    and safe: "has_code (stdText_of (F ! n)) \<or> (\<forall>h. screen_item item \<noteq> Some (k, h)) \<or>
               screen_item item = Some (k, False)"
  shows "\<exists>F' M'. dedup_item (F, M) item = Inr (F', M') \<and> dedup_inv (F', M') \<and>
           M' k = Some n \<and> F' ! n = F ! n"
proof -
  from dedup_invD2[OF inv slot] have n: "n < length F" and kn: "normalizedKey (F ! n) = k"
    by simp_all
  from dedup_inv_step[OF inv, of item]
  obtain st' where st': "dedup_item (F, M) item = Inr st'" and inv': "dedup_inv st'" by blast
  show ?thesis
  proof (cases "screen_item item")
    case None
    with st' inv' slot show ?thesis
      by (auto simp: dedup_item_cases[OF inv])
  next
    case (Some kh)
    obtain k' h where kh: "kh = (k', h)" by (cases kh)
    show ?thesis
    proof (cases "M k'")
      case None
      with slot have "k' \<noteq> k" by auto
      with st' inv' slot n None Some kh show ?thesis
        by (auto simp: dedup_item_cases[OF inv] nth_append)
    next
      case (Some index)
      from dedup_invD2[OF inv Some] have ki: "normalizedKey (F ! index) = k'" by simp
      show ?thesis
      proof (cases "\<not> has_code (stdText_of (F ! index)) \<and> h")
        case False
        with st' inv' slot Some \<open>screen_item item = Some kh\<close> kh show ?thesis
          by (auto simp: dedup_item_cases[OF inv])
      next
        case True
        have "index \<noteq> n"
        proof
          assume eq: "index = n"
          with ki kn have "k' = k" by simp
          with True eq safe \<open>screen_item item = Some kh\<close> kh show False by auto
        qed
        with st' inv' slot Some True \<open>screen_item item = Some kh\<close> kh show ?thesis
          by (auto simp: dedup_item_cases[OF inv])
      qed
    qed
  qed
qed

lemma slot_loop:
  assumes "dedup_inv (F, M)" and "M k = Some n"
    and "\<forall>item\<in>set items. has_code (stdText_of (F ! n)) \<or>
           (\<forall>h. screen_item item \<noteq> Some (k, h)) \<or> screen_item item = Some (k, False)"
  shows "\<exists>F' M'. dedup_loop (F, M) items = Inr (F', M') \<and> dedup_inv (F', M') \<and>
           M' k = Some n \<and> F' ! n = F ! n"
  using assms
proof (induction items arbitrary: F M)
  case Nil
  then show ?case by simp
next
  case (Cons item items)
  from Cons.prems(3) have safe: "has_code (stdText_of (F ! n)) \<or>
      (\<forall>h. screen_item item \<noteq> Some (k, h)) \<or> screen_item item = Some (k, False)"
    by auto
  from slot_step[OF Cons.prems(1,2) safe]
  obtain F1 M1 where step: "dedup_item (F, M) item = Inr (F1, M1)" and inv1: "dedup_inv (F1, M1)"
    and slot1: "M1 k = Some n" and same: "F1 ! n = F ! n" by blast
  from Cons.prems(3) same have rest: "\<forall>item\<in>set items. has_code (stdText_of (F1 ! n)) \<or>
      (\<forall>h. screen_item item \<noteq> Some (k, h)) \<or> screen_item item = Some (k, False)"
    by auto
  from Cons.IH[OF inv1 slot1 rest] step same show ?case by simp
qed

lemma no_key_after:
  assumes loop: "dedup_loop ([], Map.empty) pre = Inr (F, M)" and inv: "dedup_inv (F, M)"
    and none: "\<forall>c\<in>set pre. \<forall>h. screen_item c \<noteq> Some (k, h)"
  shows "M k = None"
proof (rule ccontr)
  assume "M k \<noteq> None"
  then obtain i where mk: "M k = Some i" by auto
  from dedup_invD2[OF inv mk] have i: "i < length F" and ki: "normalizedKey (F ! i) = k"
    by simp_all
  from dedup_invD1[OF inv i] obtain k' h where sc: "screen_item (F ! i) = Some (k', h)" by auto
  with ki have "screen_item (F ! i) = Some (k, h)" by (auto dest: screen_item_SomeD)
  moreover from dedup_loop_subset[OF loop] i have "F ! i \<in> set pre" by auto
  ultimately show False using none by blast
qed

lemma slot_index_step:
  assumes inv: "dedup_inv (F, M)" and slot: "M k = Some n"
    and step: "dedup_item (F, M) item = Inr (F', M')"
  shows "M' k = Some n"
proof (cases "screen_item item")
  case None
  with step slot show ?thesis
    by (simp add: dedup_item_cases[OF inv])
next
  case (Some kh)
  obtain k' h where kh: "kh = (k', h)" by (cases kh)
  show ?thesis
  proof (cases "M k'")
    case None
    with slot have "k' \<noteq> k" by auto
    with step slot None Some kh show ?thesis
      by (auto simp: dedup_item_cases[OF inv])
  next
    case (Some index)
    with step slot \<open>screen_item item = Some kh\<close> kh show ?thesis
      by (auto simp: dedup_item_cases[OF inv] split: if_splits)
  qed
qed

lemma slot_index_loop:
  assumes "dedup_inv (F, M)" and "M k = Some n"
    and "dedup_loop (F, M) items = Inr (F', M')"
  shows "M' k = Some n"
  using assms
proof (induction items arbitrary: F M)
  case Nil
  then show ?case by simp
next
  case (Cons item items)
  from dedup_inv_step[OF Cons.prems(1), of item]
  obtain F1 M1 where step: "dedup_item (F, M) item = Inr (F1, M1)" and inv1: "dedup_inv (F1, M1)"
    by auto
  from slot_index_step[OF Cons.prems(1,2) step] have slot1: "M1 k = Some n" .
  from Cons.prems(3) step have "dedup_loop (F1, M1) items = Inr (F', M')" by simp
  from Cons.IH[OF inv1 slot1 this] show ?case .
qed

text \<open>After a coded candidate of key \<open>k\<close> has passed, the slot of \<open>k\<close> holds a coded item.\<close>

lemma coded_slot_step:
  assumes inv: "dedup_inv (F, M)" and sb: "screen_item b = Some (k, True)"
  shows "\<exists>F' M' n. dedup_item (F, M) b = Inr (F', M') \<and> dedup_inv (F', M') \<and>
           M' k = Some n \<and> has_code (stdText_of (F' ! n))"
proof -
  from screen_item_SomeD[OF sb] have b_code: "has_code (stdText_of b)" by simp
  from dedup_inv_step[OF inv, of b]
  obtain st' where st': "dedup_item (F, M) b = Inr st'" and inv': "dedup_inv st'" by blast
  show ?thesis
  proof (cases "M k")
    case None
    with st' have "st' = (F @ [b], M(k \<mapsto> length F))"
      by (simp add: dedup_item_cases[OF inv] sb)
    with st' inv' b_code show ?thesis by auto
  next
    case (Some n)
    from dedup_invD2[OF inv Some] have n: "n < length F" by simp
    show ?thesis
    proof (cases "has_code (stdText_of (F ! n))")
      case True
      with st' Some have "st' = (F, M)"
        by (simp add: dedup_item_cases[OF inv] sb)
      with st' inv' Some True show ?thesis by auto
    next
      case False
      with st' Some have "st' = (F[n := b], M)"
        by (simp add: dedup_item_cases[OF inv] sb)
      with st' inv' Some n b_code show ?thesis by auto
    qed
  qed
qed

lemma coded_slot_loop:
  assumes sb: "screen_item b = Some (k, True)" and mem: "b \<in> set input"
  shows "\<exists>F M n. dedup_loop ([], Map.empty) input = Inr (F, M) \<and> dedup_inv (F, M) \<and>
           M k = Some n \<and> has_code (stdText_of (F ! n))"
proof -
  from mem obtain p r where input: "input = p @ b # r" by (auto dest: split_list)
  from dedup_inv_loop[OF dedup_inv_empty, of p]
  obtain F1 M1 where loop1: "dedup_loop ([], Map.empty) p = Inr (F1, M1)"
    and inv1: "dedup_inv (F1, M1)" by auto
  from coded_slot_step[OF inv1 sb]
  obtain F2 M2 n where step: "dedup_item (F1, M1) b = Inr (F2, M2)" and inv2: "dedup_inv (F2, M2)"
    and slot2: "M2 k = Some n" and code2: "has_code (stdText_of (F2 ! n))" by blast
  from code2 have "\<forall>item\<in>set r. has_code (stdText_of (F2 ! n)) \<or>
      (\<forall>h. screen_item item \<noteq> Some (k, h)) \<or> screen_item item = Some (k, False)"
    by simp
  from slot_loop[OF inv2 slot2 this]
  obtain F M where loop: "dedup_loop (F2, M2) r = Inr (F, M)" and inv: "dedup_inv (F, M)"
    and slot: "M k = Some n" and same: "F ! n = F2 ! n" by blast
  have "dedup_loop ([], Map.empty) input = Inr (F, M)"
    by (simp add: input dedup_loop_append loop1 step loop)
  with inv slot same code2 show ?thesis by auto
qed

text \<open>
  The slot of \<open>k\<close> is the position at which the first accepted candidate of key
  \<open>k\<close> was appended: the number of items kept from the input before it.
\<close>

lemma first_accepted_position:
  assumes sc: "screen_item c = Some (k, h)" and mem: "c \<in> set input"
    and loop: "dedup_loop ([], Map.empty) input = Inr (F, M)"
  shows "\<exists>pre x rest kept_pre. input = pre @ x # rest \<and>
           (\<forall>c\<in>set pre. \<forall>h. screen_item c \<noteq> Some (k, h)) \<and>
           (\<exists>h. screen_item x = Some (k, h)) \<and>
           kept_items pre = Inr kept_pre \<and> M k = Some (length kept_pre)"
proof -
  from mem sc have "\<exists>x\<in>set input. \<exists>h. screen_item x = Some (k, h)" by blast
  from split_list_first_prop[OF this]
  obtain pre x rest where input: "input = pre @ x # rest"
    and x: "\<exists>h. screen_item x = Some (k, h)"
    and none: "\<forall>c\<in>set pre. \<not> (\<exists>h. screen_item c = Some (k, h))" by blast
  from none have none': "\<forall>c\<in>set pre. \<forall>h. screen_item c \<noteq> Some (k, h)" by blast
  from kept_items_inv[of pre]
  obtain F0 M0 where loop0: "dedup_loop ([], Map.empty) pre = Inr (F0, M0)"
    and kept0: "kept_items pre = Inr F0" and inv0: "dedup_inv (F0, M0)" by blast
  from no_key_after[OF loop0 inv0 none'] have M0k: "M0 k = None" .
  from x obtain hx where sx: "screen_item x = Some (k, hx)" by blast
  have step: "dedup_item (F0, M0) x = Inr (F0 @ [x], M0(k \<mapsto> length F0))"
    by (simp add: dedup_item_cases[OF inv0] sx M0k)
  with dedup_inv_step[OF inv0, of x] have inv1: "dedup_inv (F0 @ [x], M0(k \<mapsto> length F0))"
    by simp
  from loop have "dedup_loop (F0 @ [x], M0(k \<mapsto> length F0)) rest = Inr (F, M)"
    by (simp add: input dedup_loop_append loop0 step)
  from slot_index_loop[OF inv1 _ this] have "M k = Some (length F0)" by simp
  with input none' x kept0 show ?thesis by blast
qed

lemma code_kept_in_slot:
  assumes sa: "screen_item a = Some (k, False)" and sb: "screen_item b = Some (k, True)"
    and mem: "b \<in> set input"
  shows "\<exists>items n. kept_items input = Inr items \<and> n < length items \<and>
           items ! n \<in> set input \<and> screen_item (items ! n) = Some (k, True) \<and>
           (\<forall>j<length items. normalizedKey (items ! j) = k \<longrightarrow> j = n) \<and>
           a \<notin> set items \<and>
           (\<exists>pre x rest kept_pre. input = pre @ x # rest \<and>
              (\<forall>c\<in>set pre. \<forall>h. screen_item c \<noteq> Some (k, h)) \<and>
              (\<exists>h. screen_item x = Some (k, h)) \<and>
              kept_items pre = Inr kept_pre \<and> n = length kept_pre)"
proof -
  from coded_slot_loop[OF sb mem]
  obtain F M n where loop: "dedup_loop ([], Map.empty) input = Inr (F, M)"
    and inv: "dedup_inv (F, M)" and slot: "M k = Some n"
    and code: "has_code (stdText_of (F ! n))" by blast
  from dedup_invD2[OF inv slot] have n: "n < length F" and kn: "normalizedKey (F ! n) = k"
    by simp_all
  from dedup_invD1[OF inv n] obtain k' h' where "screen_item (F ! n) = Some (k', h')" by auto
  with kn code have sn: "screen_item (F ! n) = Some (k, True)"
    by (auto dest: screen_item_SomeD)
  from dedup_loop_subset[OF loop] n have in_input: "F ! n \<in> set input" by auto
  have uniq: "\<forall>j<length F. normalizedKey (F ! j) = k \<longrightarrow> j = n"
  proof (intro allI impI)
    fix j assume j: "j < length F" and kj: "normalizedKey (F ! j) = k"
    from dedup_invD1[OF inv j] kj have "M k = Some j" by simp
    with slot show "j = n" by simp
  qed
  have not_a: "a \<notin> set F"
  proof
    assume "a \<in> set F"
    then obtain j where j: "j < length F" and aj: "F ! j = a" by (auto simp: in_set_conv_nth)
    from screen_item_SomeD[OF sa] aj have "normalizedKey (F ! j) = k" by simp
    with uniq j have "j = n" by simp
    with aj sn sa show False by simp
  qed
  from first_accepted_position[OF sb mem loop] slot
  have pos: "\<exists>pre x rest kept_pre. input = pre @ x # rest \<and>
              (\<forall>c\<in>set pre. \<forall>h. screen_item c \<noteq> Some (k, h)) \<and>
              (\<exists>h. screen_item x = Some (k, h)) \<and>
              kept_items pre = Inr kept_pre \<and> n = length kept_pre"
    by auto
  from loop have "kept_items input = Inr F" by (simp add: kept_items_def)
  with n in_input sn uniq not_a pos show ?thesis by blast
qed

lemma code_preferred_pair:
  assumes "screen_item a = Some (k, False)" and "screen_item b = Some (k, True)"
  shows "consolidate clock [a, b] = Inr [to_plan_item clock b 0] \<and>
         consolidate clock [b, a] = Inr [to_plan_item clock b 0]"
proof -
  from screen_item_SomeD[OF assms(1)] have a_code: "\<not> has_code (stdText_of a)" by simp
  have "dedup_item ([a], [k \<mapsto> 0]) b = Inr ([b], [k \<mapsto> 0])"
    using assms(2) a_code by (simp add: dedup_item_def has_code_stdText)
  then have ab: "consolidate clock [a, b] = Inr [to_plan_item clock b 0]"
    by (simp add: consolidate_def kept_items_def dedup_item_first[OF assms(1)])
  have "dedup_item ([b], [k \<mapsto> 0]) a = Inr ([b], [k \<mapsto> 0])"
    using assms(1) by (simp add: dedup_item_def)
  then have ba: "consolidate clock [b, a] = Inr [to_plan_item clock b 0]"
    by (simp add: consolidate_def kept_items_def dedup_item_first[OF assms(2)])
  from ab ba show ?thesis by simp
qed

text \<open>
  Claim C4. Let two candidates pass the filters with the same normalized key, the
  first without a bracketed code and the second with one. Consolidating the two alone
  returns the record of the coded one alone, at index 0, in either order. In every
  input in which the coded candidate occurs, wherever the two stand and whatever else
  the input holds, exactly one kept item has that key; it is a coded candidate of
  that key from the input, it stands at the first-accepted position (the number of
  items kept from the part of the input before the first accepted candidate of that
  key), and the candidate without a code is not kept.
\<close>

theorem C4_code_preferred:
  assumes "screen_item a = Some (k, False)" and "screen_item b = Some (k, True)"
    and "b \<in> set input"
  shows "consolidate clock [a, b] = Inr [to_plan_item clock b 0] \<and>
         consolidate clock [b, a] = Inr [to_plan_item clock b 0] \<and>
         (\<exists>items n.
            kept_items input = Inr items \<and> n < length items \<and>
            items ! n \<in> set input \<and> screen_item (items ! n) = Some (k, True) \<and>
            (\<forall>j<length items. normalizedKey (items ! j) = k \<longrightarrow> j = n) \<and>
            a \<notin> set items \<and>
            (\<exists>pre x rest kept_pre. input = pre @ x # rest \<and>
               (\<forall>c\<in>set pre. \<forall>h. screen_item c \<noteq> Some (k, h)) \<and>
               (\<exists>h. screen_item x = Some (k, h)) \<and>
               kept_items pre = Inr kept_pre \<and> n = length kept_pre) \<and>
            consolidate clock input =
              Inr (map (\<lambda>i. to_plan_item clock (items ! i) i) [0..<length items]))"
proof -
  from code_kept_in_slot[OF assms]
  obtain items n where items: "kept_items input = Inr items" and rest: "n < length items"
    "items ! n \<in> set input" "screen_item (items ! n) = Some (k, True)"
    "\<forall>j<length items. normalizedKey (items ! j) = k \<longrightarrow> j = n"
    "a \<notin> set items"
    "\<exists>pre x rest kept_pre. input = pre @ x # rest \<and>
       (\<forall>c\<in>set pre. \<forall>h. screen_item c \<noteq> Some (k, h)) \<and>
       (\<exists>h. screen_item x = Some (k, h)) \<and>
       kept_items pre = Inr kept_pre \<and> n = length kept_pre"
    by blast
  from consolidate_of_kept[OF items, of clock] items rest
  have "\<exists>items n.
            kept_items input = Inr items \<and> n < length items \<and>
            items ! n \<in> set input \<and> screen_item (items ! n) = Some (k, True) \<and>
            (\<forall>j<length items. normalizedKey (items ! j) = k \<longrightarrow> j = n) \<and>
            a \<notin> set items \<and>
            (\<exists>pre x rest kept_pre. input = pre @ x # rest \<and>
               (\<forall>c\<in>set pre. \<forall>h. screen_item c \<noteq> Some (k, h)) \<and>
               (\<exists>h. screen_item x = Some (k, h)) \<and>
               kept_items pre = Inr kept_pre \<and> n = length kept_pre) \<and>
            consolidate clock input =
              Inr (map (\<lambda>i. to_plan_item clock (items ! i) i) [0..<length items])"
    by blast
  with code_preferred_pair[OF assms(1,2), of clock] show ?thesis by blast
qed

theorem C4_code_preferred_witness:
  "screen_item (plain_candidate ex_uncoded_standard) =
      Some ([0xC9C0, 0xC218, 0xBC95, 0xCE59, 0xC744, 0xC774, 0xD574, 0xD55C, 0xB2E4, 0x2E], False) \<and>
   screen_item (plain_candidate ex_coded_standard) =
      Some ([0xC9C0, 0xC218, 0xBC95, 0xCE59, 0xC744, 0xC774, 0xD574, 0xD55C, 0xB2E4, 0x2E], True) \<and>
   plain_candidate ex_coded_standard \<in>
      set [plain_candidate ex_uncoded_standard, plain_candidate ex_coded_standard] \<and>
   consolidate ex_clock [plain_candidate ex_uncoded_standard, plain_candidate ex_coded_standard]
     = Inr [to_plan_item ex_clock (plain_candidate ex_coded_standard) 0] \<and>
   consolidate ex_clock [plain_candidate ex_coded_standard, plain_candidate ex_uncoded_standard]
     = Inr [to_plan_item ex_clock (plain_candidate ex_coded_standard) 0]"
proof -
  have a: "screen_item (plain_candidate ex_uncoded_standard) =
      Some ([0xC9C0, 0xC218, 0xBC95, 0xCE59, 0xC744, 0xC774, 0xD574, 0xD55C, 0xB2E4, 0x2E], False)"
    by (simp add: screen_item_uncoded[OF standard_plain] same_as_unit_plain)
  have b: "screen_item (plain_candidate ex_coded_standard) =
      Some ([0xC9C0, 0xC218, 0xBC95, 0xCE59, 0xC744, 0xC774, 0xD574, 0xD55C, 0xB2E4, 0x2E], True)"
    by (simp add: screen_item_coded[OF standard_plain] same_as_unit_plain)
  have mem: "plain_candidate ex_coded_standard \<in>
      set [plain_candidate ex_uncoded_standard, plain_candidate ex_coded_standard]"
    by simp
  from C4_code_preferred[OF a b mem, of ex_clock] a b mem
  show ?thesis by blast
qed

section \<open>Failures of the collaborators\<close>

lemma extractPdfPagesByIndices_returns:
  "extractPdfPagesByIndices sv f pageIndices =
     (case slice_document sv f pageIndices of Inl e \<Rightarrow> Inr None | Inr v \<Rightarrow> Inr v)"
  by (simp add: extractPdfPagesByIndices_def try_catch_def)

lemma analyzeChunk_fails:
  "extraction_fails sv ai (chunkContent @ [Prompt subject grade range']) \<Longrightarrow>
   analyzeChunk sv ai chunkContent subject grade range' chunkIndex = Inr []"
  by (auto simp: analyzeChunk_def extraction_fails_def try_catch_def and_then_def
      split: sum.splits option.splits)

lemma chunk_task_fails:
  "\<forall>contents. extraction_fails sv ai contents \<Longrightarrow>
   chunk_task sv f ai subject grade range' indices i = Inr []"
  by (auto simp: chunk_task_def extractPdfPagesByIndices_returns and_then_def analyzeChunk_fails
      split: sum.splits option.splits)

lemma promise_all_empty_results:
  "\<forall>p\<in>set ps. p = Inr [] \<Longrightarrow> promise_all ps = Inr (replicate (length ps) [])"
  by (induction ps) auto

lemma concat_replicate_Nil: "concat (replicate n []) = []"
  by (induction n) auto

lemma chunk_indices_returns: "\<exists>chunks. chunk_indices CHUNK_SIZE xs = Some chunks"
proof -
  have "0 < CHUNK_SIZE" by (simp add: CHUNK_SIZE_def)
  from chunk_loop_returns[OF this, of xs 0 "[]"] show ?thesis
    by (auto simp: chunk_indices_def)
qed

lemma chunked_items_fails:
  assumes "\<forall>contents. extraction_fails sv ai contents"
  shows "(\<exists>e. chunked_items sv f ai subject grade range' pageRange = Some (Inl e)) \<or>
         chunked_items sv f ai subject grade range' pageRange = Some (Inr (Return [])) \<or>
         chunked_items sv f ai subject grade range' pageRange = Some (Inr (Continue []))"
proof (cases "arrayBuffer f")
  case (Inl e)
  then show ?thesis by (simp add: chunked_items_def)
next
  case (Inr buffer)
  show ?thesis
  proof (cases "pdf_load sv buffer")
    case (Inl e)
    with Inr show ?thesis by (simp add: chunked_items_def)
  next
    case load: (Inr pdfDoc)
    let ?req = "parsePageRange pageRange (pdf_getPageCount sv pdfDoc)"
    show ?thesis
    proof (cases "?req = []")
      case True
      with Inr load show ?thesis by (simp add: chunked_items_def)
    next
      case False
      from chunk_indices_returns[of ?req]
      obtain chunks where chunks: "chunk_indices CHUNK_SIZE ?req = Some chunks" by blast
      let ?tasks = "map (\<lambda>(indices, i). chunk_task sv f ai subject grade range' indices i)
                      (zip chunks [0..<length chunks])"
      have "\<forall>p\<in>set ?tasks. p = Inr []"
        using chunk_task_fails[OF assms] by auto
      from promise_all_empty_results[OF this]
      have "promise_all ?tasks = Inr (replicate (length ?tasks) [])" .
      with Inr load False chunks show ?thesis
        by (simp add: chunked_items_def and_then_def concat_replicate_Nil)
    qed
  qed
qed

lemma consolidate_Nil: "consolidate clock [] = Inr []"
  by (simp add: consolidate_def kept_items_def)

lemma fallback_items_fails:
  assumes "\<forall>contents. extraction_fails sv ai contents"
  shows "fallback_items sv f ai mimeType subject grade range' =
     (case fileToBase64 f of Inl e \<Rightarrow> Inl e | Inr b \<Rightarrow> Inr (Continue []))"
  using assms
  by (simp add: fallback_items_def and_then_def analyzeChunk_fails split: sum.splits)

lemma single_call_items_fails:
  assumes "\<forall>contents. extraction_fails sv ai contents"
  shows "single_call_items sv f ai mimeType subject grade range' =
     (if mimeType = ascii ''text/plain''
      then (case readTextFile f of Inl e \<Rightarrow> Inl e | Inr t \<Rightarrow> Inr (Continue []))
      else (case fileToBase64 f of Inl e \<Rightarrow> Inl e | Inr b \<Rightarrow> Inr (Continue [])))"
  using assms
  by (simp add: single_call_items_def and_then_def analyzeChunk_fails split: sum.splits)

text \<open>
  Claim C1 as stated fails: with a PDF of four pages, the page range "1-4" and a
  service that rejects every call, both chunks fail and the operation resolves with
  the empty list; with a document that cannot be opened, the single fallback call
  fails and the operation resolves with the empty list as well.
\<close>

theorem C1_counterexample:
  "parseStandardsAndGeneratePlan ex_services ex_pdf_file (ascii ''math'') GRADE_1 None
     (Some (ascii ''1-4'')) = Some (Inr []) \<and>
   parseStandardsAndGeneratePlan ex_services_unreadable ex_pdf_file (ascii ''math'') GRADE_1 None
     (Some (ascii ''1-4'')) = Some (Inr [])"
proof -
  have key: "requireApiKey ex_services = Some (ascii ''k'')"
    "requireApiKey ex_services_unreadable = Some (ascii ''k'')"
    by (simp_all add: requireApiKey_def getApiKey_def ex_services_def ex_services_unreadable_def
          ascii_def)
  have mime: "getMimeType ex_pdf_file = ascii ''application/pdf''"
    by (simp add: getMimeType_def ex_pdf_file_def ascii_def)
  have range_ok: "ascii ''1-4'' \<noteq> [] \<and> trim (ascii ''1-4'') \<noteq> []"
    by (simp add: ascii_def trim_def is_space_def)
  have pages: "parsePageRange (ascii ''1-4'') 4 = [0, 1, 2, 3]"
    by (simp add: ascii_def parsePageRange_def page_part_def parseInt_def trim_def is_space_def
          is_digit_def digit_value_def set_add_def upto.simps)
  have chunks: "chunk_indices CHUNK_SIZE [0, 1, 2, 3 :: int] = Some [[0, 1, 2], [3]]"
    by (simp add: chunk_indices_def CHUNK_SIZE_def chunk_loop.simps slice_def)
  have fails: "\<forall>contents. extraction_fails ex_services (ascii ''k'') contents"
    by (simp add: extraction_fails_def ex_services_def)
  have tasks: "chunk_task ex_services ex_pdf_file (ascii ''k'') (ascii ''math'') GRADE_1 None
      indices i = Inr []" for indices i
    by (rule chunk_task_fails[OF fails])
  have "chunked_items ex_services ex_pdf_file (ascii ''k'') (ascii ''math'') GRADE_1 None
      (ascii ''1-4'') = Some (Inr (Continue []))"
  proof -
    have "arrayBuffer ex_pdf_file = Inr [0x25, 0x50, 0x44, 0x46]"
      and "pdf_load ex_services [0x25, 0x50, 0x44, 0x46] = Inr 4"
      and "pdf_getPageCount ex_services 4 = 4"
      by (simp_all add: ex_pdf_file_def ex_services_def)
    then show ?thesis
      by (simp add: chunked_items_def pages chunks tasks and_then_def upt_rec)
  qed
  then have first: "parseStandardsAndGeneratePlan ex_services ex_pdf_file (ascii ''math'') GRADE_1
      None (Some (ascii ''1-4'')) = Some (consolidate (date_now ex_services) [])"
    using range_ok by (simp add: parseStandardsAndGeneratePlan_def key mime)
  have fails': "\<forall>contents. extraction_fails ex_services_unreadable (ascii ''k'') contents"
    by (simp add: extraction_fails_def ex_services_unreadable_def ex_services_def)
  have "chunked_items ex_services_unreadable ex_pdf_file (ascii ''k'') (ascii ''math'') GRADE_1 None
      (ascii ''1-4'') = Some (Inl (Error ''Failed to parse PDF document''))"
    by (simp add: chunked_items_def ex_pdf_file_def ex_services_unreadable_def ex_services_def)
  moreover have "fileToBase64 ex_pdf_file = Inr (Some (ascii ''JVBERi0=''))"
    by (simp add: fileToBase64_def and_then_def ex_pdf_file_def ascii_def)
  ultimately have second: "parseStandardsAndGeneratePlan ex_services_unreadable ex_pdf_file
      (ascii ''math'') GRADE_1 None (Some (ascii ''1-4''))
      = Some (consolidate (date_now ex_services_unreadable) [])"
    using range_ok
    by (simp add: parseStandardsAndGeneratePlan_def key mime fallback_items_fails[OF fails'])
  from first second show ?thesis
    by (simp add: consolidate_Nil)
qed

text \<open>
  Claim C1, amended. When the key is present and every extraction call fails, the
  operation returns, and it resolves with the empty record list; the only other
  outcome is the rejection with which reading the whole file for the single call
  failed.
\<close>

theorem C1_all_calls_fail:
  assumes "requireApiKey sv = Some apiKey"
    and "\<forall>contents. extraction_fails sv apiKey contents"
  shows "parseStandardsAndGeneratePlan sv f subject grade range' pageRange = Some (Inr []) \<or>
         (\<exists>e. parseStandardsAndGeneratePlan sv f subject grade range' pageRange = Some (Inl e) \<and>
              (fileToBase64 f = Inl e \<or> readTextFile f = Inl e))"
proof -
  note fb = fallback_items_fails[OF assms(2)] and sc = single_call_items_fails[OF assms(2)]
  show ?thesis
  proof (cases pageRange)
    case None
    with assms(1) show ?thesis
      by (auto simp: parseStandardsAndGeneratePlan_def Let_def sc consolidate_Nil
          split: sum.splits)
  next
    case (Some pr)
    show ?thesis
    proof (cases "getMimeType f = ascii ''application/pdf'' \<and> pr \<noteq> [] \<and> trim pr \<noteq> []")
      case False
      with assms(1) Some show ?thesis
        by (auto simp: parseStandardsAndGeneratePlan_def Let_def sc consolidate_Nil
            split: sum.splits)
    next
      case True
      from chunked_items_fails[OF assms(2), of f subject grade range' pr]
      consider e where "chunked_items sv f apiKey subject grade range' pr = Some (Inl e)"
        | "chunked_items sv f apiKey subject grade range' pr = Some (Inr (Return []))"
        | "chunked_items sv f apiKey subject grade range' pr = Some (Inr (Continue []))"
        by blast
      then show ?thesis
      proof cases
        case 1
        with assms(1) Some True show ?thesis
          by (auto simp: parseStandardsAndGeneratePlan_def Let_def fb consolidate_Nil
              split: sum.splits)
      next
        case 2
        with assms(1) Some True show ?thesis
          by (simp add: parseStandardsAndGeneratePlan_def Let_def)
      next
        case 3
        with assms(1) Some True show ?thesis
          by (simp add: parseStandardsAndGeneratePlan_def Let_def consolidate_Nil)
      qed
    qed
  qed
qed

theorem C1_all_calls_fail_witness:
  "requireApiKey ex_services = Some (ascii ''k'') \<and>
   (\<forall>contents. extraction_fails ex_services (ascii ''k'') contents) \<and>
   parseStandardsAndGeneratePlan ex_services ex_pdf_file (ascii ''math'') GRADE_2 None None
     = Some (Inr [])"
proof -
  have key: "requireApiKey ex_services = Some (ascii ''k'')"
    by (simp add: requireApiKey_def getApiKey_def ex_services_def ascii_def)
  have fails: "\<forall>contents. extraction_fails ex_services (ascii ''k'') contents"
    by (simp add: extraction_fails_def ex_services_def)
  have "fileToBase64 ex_pdf_file = Inr (Some (ascii ''JVBERi0=''))"
    by (simp add: fileToBase64_def and_then_def ex_pdf_file_def ascii_def)
  moreover have "readTextFile ex_pdf_file = Inr (ascii ''%PDF'')"
    by (simp add: readTextFile_def and_then_def ex_pdf_file_def ascii_def)
  ultimately show ?thesis
    using C1_all_calls_fail[OF key fails, of ex_pdf_file "ascii ''math''" GRADE_2 None None]
      key fails
    by auto
qed

text \<open>
  Claim C9 as stated fails: for a document that the PDF library cannot open, the
  \<open>try\<close> block throws and the slice operation returns \<open>null\<close>.
\<close>

theorem C9_counterexample:
  "slice_document ex_services_unreadable ex_pdf_file [0]
     = Inl (Error ''Failed to parse PDF document'') \<and>
   extractPdfPagesByIndices ex_services_unreadable ex_pdf_file [0] = Inr None"
  by (simp add: extractPdfPagesByIndices_def try_catch_def slice_document_def and_then_def
        ex_services_unreadable_def ex_services_def ex_pdf_file_def)

text \<open>
  Claim C9, amended. For every document and every sequence of page indices that is
  not empty, if reading or re-encoding the document throws, the slice operation
  returns \<open>null\<close>; it never fails with an error.
\<close>

theorem C9_failure_returns_null:
  assumes "pageIndices \<noteq> []"
    and "slice_document sv f pageIndices = Inl e"
  shows "extractPdfPagesByIndices sv f pageIndices = Inr None \<and>
         (\<forall>e'. extractPdfPagesByIndices sv f pageIndices \<noteq> Inl e')"
  using assms(2) by (simp add: extractPdfPagesByIndices_returns)

theorem C9_failure_returns_null_witness:
  "[0 :: int] \<noteq> [] \<and>
   slice_document ex_services_unreadable ex_pdf_file [0]
     = Inl (Error ''Failed to parse PDF document'') \<and>
   extractPdfPagesByIndices ex_services_unreadable ex_pdf_file [0] = Inr None"
proof -
  have ne: "[0 :: int] \<noteq> []" by simp
  have thrown: "slice_document ex_services_unreadable ex_pdf_file [0]
      = Inl (Error ''Failed to parse PDF document'')"
    by (simp add: slice_document_def and_then_def ex_services_unreadable_def ex_services_def
          ex_pdf_file_def)
  from C9_failure_returns_null[OF ne thrown] thrown show ?thesis by simp
qed


end
